theory Spec2Isabelle
  imports Complex_Main
begin

section \<open>JavaScript numbers and the Math functions the widgets use\<close>

text \<open>
  The widgets compute with JavaScript numbers, which are IEEE 754 doubles. A finite
  double is a real number, so the numbers of the model are of type \<^typ>\<open>real\<close>.
  Where a property is a bound or an ordering (the clamps, step functions and easing
  of the inverter, the chart of the monitor, the geometry of a connection) the
  operations are read exactly. Where the displayed value depends on how each
  operation rounds (the power product of the solar panel, the size of the bulb, the
  speed and the progress of a particle) the operations are those of the section on
  double arithmetic below. The one place where the source can produce a value that
  is not a number (a division by a zero segment length in \<open>getParticlePosition\<close>) is
  modelled with \<^typ>\<open>'a option\<close>.

  \<open>Math.random()\<close> returns a number in \<open>[0, 1)\<close>; every call site takes its draw as an
  argument, and \<open>is_random\<close> is the range the language promises.
\<close>

definition is_random :: "real \<Rightarrow> bool" where
  "is_random r = (0 \<le> r \<and> r < 1)"

text \<open>\<open>Math.round\<close> rounds to the nearest integer, halves upwards.\<close>

definition Math_round :: "real \<Rightarrow> real" where
  "Math_round v = of_int \<lfloor>v + 1 / 2\<rfloor>"

definition Math_floor :: "real \<Rightarrow> real" where
  "Math_floor v = of_int \<lfloor>v\<rfloor>"

text \<open>
  The remainder operator \<open>a % b\<close> truncates the quotient towards zero, so the result
  has the sign of the dividend.
\<close>

definition js_rem :: "real \<Rightarrow> real \<Rightarrow> real" where
  "js_rem a b = a - b * of_int (if 0 \<le> a / b then \<lfloor>a / b\<rfloor> else \<lceil>a / b\<rceil>)"

text \<open>\<open>a || b\<close> on numbers: \<open>b\<close> when \<open>a\<close> is falsy, which for a number is zero.\<close>

definition js_or :: "real \<Rightarrow> real \<Rightarrow> real" where
  "js_or a b = (if a = 0 then b else a)"

section \<open>Double arithmetic\<close>

text \<open>
  A double has a significand of 53 bits, and the result of an arithmetic operation is
  the exact result rounded to the nearest double, ties going to the even significand.
  \<open>rne\<close> rounds a real to the nearest integer in that way, \<open>binade x\<close> is the exponent
  \<open>e\<close> with \<open>2 ^ e \<le> |x| < 2 ^ (e + 1)\<close>, \<open>ulp x\<close> the distance of neighbouring
  doubles there, and \<open>fl64\<close> the rounding itself. The exponent range is unbounded in
  the model: overflow and subnormal numbers are left out, the numbers of the widgets
  being far from both ends of the range.
\<close>

definition rne :: "real \<Rightarrow> int" where
  "rne y = (let f = \<lfloor>y\<rfloor>; d = y - of_int f
            in if d < 1 / 2 then f else if 1 / 2 < d then f + 1
               else if even f then f else f + 1)"

definition binade :: "real \<Rightarrow> int" where
  "binade x = \<lfloor>log 2 \<bar>x\<bar>\<rfloor>"

definition ulp :: "real \<Rightarrow> real" where
  "ulp x = 2 powi (binade x - 52)"

definition fl64 :: "real \<Rightarrow> real" where
  "fl64 x = (if x = 0 then 0 else of_int (rne (x / ulp x)) * ulp x)"

text \<open>
  The four operations, and a decimal literal of the source, which denotes the double
  nearest to it. \<open>Math.max\<close>, \<open>Math.abs\<close>, \<open>Math.floor\<close>, \<open>Math.round\<close>, the
  comparisons and \<open>%\<close> are exact on doubles and need no rounding.
\<close>

definition dadd :: "real \<Rightarrow> real \<Rightarrow> real" where
  "dadd a b = fl64 (a + b)"


definition dmul :: "real \<Rightarrow> real \<Rightarrow> real" where
  "dmul a b = fl64 (a * b)"





section \<open>StaticInverterNode\<close>

datatype Mode = normal | pv | battery

record InverterProps =
  inverterOn :: bool
  prop_gridConnected :: "bool option"
  prop_solarConnected :: "bool option"
  prop_batteryConnected :: "bool option"
  prop_loadPercentage :: "real option"
  prop_efficiency :: "real option"
  prop_inputVoltage :: "real option"
  prop_outputVoltage :: "real option"
  prop_frequency :: "real option"
  prop_batteryLevel :: "real option"
  prop_batteryCharging :: "bool option"
  prop_totalEnergyGenerated :: "real option"
  prop_temperature :: "real option"
  prop_fanSpeed :: "real option"
  prop_mode :: "Mode option"

text \<open>An optional prop with its in-code default (\<open>name: initialName = default\<close>).\<close>

definition dflt :: "'a \<Rightarrow> 'a option \<Rightarrow> 'a" where
  "dflt d v = (case v of None \<Rightarrow> d | Some a \<Rightarrow> a)"

definition initialGridConnected :: "InverterProps \<Rightarrow> bool" where
  "initialGridConnected p = dflt False (prop_gridConnected p)"

definition initialSolarConnected :: "InverterProps \<Rightarrow> bool" where
  "initialSolarConnected p = dflt False (prop_solarConnected p)"

definition initialBatteryConnected :: "InverterProps \<Rightarrow> bool" where
  "initialBatteryConnected p = dflt False (prop_batteryConnected p)"

definition initialLoadPercentage :: "InverterProps \<Rightarrow> real" where
  "initialLoadPercentage p = dflt 0 (prop_loadPercentage p)"

definition initialEfficiency :: "InverterProps \<Rightarrow> real" where
  "initialEfficiency p = dflt 97 (prop_efficiency p)"

definition initialInputVoltage :: "InverterProps \<Rightarrow> real" where
  "initialInputVoltage p = dflt 48 (prop_inputVoltage p)"

definition initialOutputVoltage :: "InverterProps \<Rightarrow> real" where
  "initialOutputVoltage p = dflt 230 (prop_outputVoltage p)"

definition initialFrequency :: "InverterProps \<Rightarrow> real" where
  "initialFrequency p = dflt 50 (prop_frequency p)"

definition initialBatteryLevel :: "InverterProps \<Rightarrow> real" where
  "initialBatteryLevel p = dflt 80 (prop_batteryLevel p)"

definition initialBatteryCharging :: "InverterProps \<Rightarrow> bool" where
  "initialBatteryCharging p = dflt False (prop_batteryCharging p)"

definition initialTotalEnergyGenerated :: "InverterProps \<Rightarrow> real" where
  "initialTotalEnergyGenerated p = dflt (235 / 10) (prop_totalEnergyGenerated p)"

definition initialTemperature :: "InverterProps \<Rightarrow> real" where
  "initialTemperature p = dflt 45 (prop_temperature p)"

definition initialFanSpeed :: "InverterProps \<Rightarrow> real" where
  "initialFanSpeed p = dflt 40 (prop_fanSpeed p)"

definition initialMode :: "InverterProps \<Rightarrow> Mode" where
  "initialMode p = dflt normal (prop_mode p)"

text \<open>
  The four audio elements of the widget and what an element's \<open>src\<close> can be: the URL
  written in the markup, or an object URL of a blob made by the error handler.
\<close>

datatype AudioElem = inverterHum | fanNoise | buttonClick | alarm

datatype AudioSrc = Url string | BlobUrl "nat list" string

record InverterState =
  gridConnected :: bool
  solarConnected :: bool
  batteryConnected :: bool
  temperature :: real
  loadPercentage :: real
  efficiency :: real
  inputVoltage :: real
  outputVoltage :: real
  inputFrequency :: real
  outputFrequency :: real
  batteryLevel :: real
  batteryCharging :: bool
  totalEnergyGenerated :: real
  fanSpeed :: real
  mode :: Mode
  selectedMode :: nat
  faultCondition :: bool
  screenActive :: bool
  configMode :: bool
  displayOption :: nat
  screenBrightness :: real
  bootupPhase :: nat
  hovered :: bool
  showActivatePrompt :: bool
  humVolume :: real
  fanVolume :: real
  audioSrc :: "AudioElem \<Rightarrow> AudioSrc"
  consoleWarnings :: "string list"

definition markupSrc :: "AudioElem \<Rightarrow> AudioSrc" where
  "markupSrc e = (case e of
       inverterHum \<Rightarrow> Url ''/sounds/inverter-hum.mp3''
     | fanNoise \<Rightarrow> Url ''/sounds/fan-noise.mp3''
     | buttonClick \<Rightarrow> Url ''/sounds/button-click.mp3''
     | alarm \<Rightarrow> Url ''/sounds/alarm.mp3'')"

text \<open>The \<open>useState\<close> initialisers of the widget, in the order of the source.\<close>

definition inverterInit :: "InverterProps \<Rightarrow> InverterState" where
  "inverterInit p = \<lparr>
     gridConnected = initialGridConnected p,
     solarConnected = initialSolarConnected p,
     batteryConnected = initialBatteryConnected p,
     temperature = initialTemperature p,
     loadPercentage = initialLoadPercentage p,
     efficiency = initialEfficiency p,
     inputVoltage = initialInputVoltage p,
     outputVoltage = initialOutputVoltage p,
     inputFrequency = 0,
     outputFrequency = js_or (initialFrequency p) 50,
     batteryLevel = initialBatteryLevel p,
     batteryCharging = initialBatteryCharging p,
     totalEnergyGenerated = initialTotalEnergyGenerated p,
     fanSpeed = initialFanSpeed p,
     mode = initialMode p,
     selectedMode = (if initialMode p = normal then 0 else if initialMode p = pv then 1 else 2),
     faultCondition = False,
     screenActive = False,
     configMode = False,
     displayOption = 0,
     screenBrightness = 1,
     bootupPhase = 0,
     hovered = False,
     showActivatePrompt = (\<not> inverterOn p),
     humVolume = 0,
     fanVolume = 0,
     audioSrc = markupSrc,
     consoleWarnings = [] \<rparr>"

subsection \<open>Temperature simulation: the cooldown interval\<close>

text \<open>
  While \<open>inverterOn\<close> is false the effect installs a 1-second interval whose callback
  is the state updater below.
\<close>

definition cooldownStep :: "real \<Rightarrow> real" where
  "cooldownStep prev = (let cooldownRate = (prev - 35) / 10 in max (prev - cooldownRate) 35)"

definition cooldownTick :: "InverterState \<Rightarrow> InverterState" where
  "cooldownTick s = s\<lparr>temperature := cooldownStep (temperature s)\<rparr>"

subsection \<open>Temperature simulation: the heat-up interval\<close>

text \<open>One draw of \<open>Math.random()\<close> for each call site of the interval callback.\<close>

record TickRandoms =
  rndVariation :: real
  rndFan :: real
  rndGeneration :: real
  rndInputFrequency :: real
  rndOutputFrequency :: real
  rndFault :: real

text \<open>The fan-speed curve: the temperature read by the callback and the jitter draw.\<close>

definition fanSpeedFor :: "real \<Rightarrow> real \<Rightarrow> real" where
  "fanSpeedFor temp rnd =
     (if temp > 65 then 100
      else if temp > 55 then 80 + Math_round (rnd * 5)
      else if temp > 45 then 60 + Math_round (rnd * 5)
      else if temp > 40 then 40 + Math_round (rnd * 5)
      else 20 + Math_round (rnd * 5))"

definition heatStep :: "real \<Rightarrow> real \<Rightarrow> real \<Rightarrow> real \<Rightarrow> real" where
  "heatStep load fan rnd prev =
     (let loadFactor = load / 100;
          randomVariation = rnd * 2 - 1;
          targetTemp = 35 + loadFactor * 30 + randomVariation;
          coolingEffect = fan / 100;
          heatRate = loadFactor * (3 / 2);
          coolRate = coolingEffect * (5 / 2)
      in if prev < targetTemp then min (prev + heatRate) targetTemp
         else max (prev - coolRate) targetTemp)"

text \<open>
  The battery branch of the callback. The rates are computed from the values the
  callback closed over (\<open>c\<close>, the state of the render that installed the interval);
  the level itself is changed by a functional updater, so it reads the current
  state \<open>s\<close>.
\<close>

definition batteryStep :: "InverterState \<Rightarrow> InverterState \<Rightarrow> InverterState" where
  "batteryStep c s =
     (if batteryConnected c then
        (if solarConnected c \<and> loadPercentage c < 80 then
           (let chargeRate = (1 / 100) * (1 - batteryLevel c / 150)
            in s\<lparr>batteryCharging := True,
                 batteryLevel := min (batteryLevel s + chargeRate) 100\<rparr>)
         else if loadPercentage c > 0 then
           (let dischargeRate = (2 / 100) * (loadPercentage c / 50);
                s1 = s\<lparr>batteryCharging := False,
                       batteryLevel := max (batteryLevel s - dischargeRate) 0\<rparr>
            in if batteryLevel c < 10 \<and> \<not> faultCondition c \<and> mode c = battery
               then s1\<lparr>faultCondition := True\<rparr> else s1)
         else s\<lparr>batteryCharging := False\<rparr>)
      else s)"

definition heatupTick :: "bool \<Rightarrow> TickRandoms \<Rightarrow> InverterState \<Rightarrow> InverterState \<Rightarrow> InverterState" where
  "heatupTick on r c s =
     (if on then
        (let s1 = s\<lparr>temperature :=
                     heatStep (loadPercentage c) (fanSpeed c) (rndVariation r) (temperature s)\<rparr>;
             s2 = s1\<lparr>fanSpeed := fanSpeedFor (temperature c) (rndFan r)\<rparr>;
             s3 = (if solarConnected c \<and> mode c = pv
                   then s2\<lparr>totalEnergyGenerated := totalEnergyGenerated s2 +
                          (1 / 1000) * (1 + (rndGeneration r * (2 / 10) - 1 / 10))\<rparr>
                   else s2);
             s4 = batteryStep c s3;
             s5 = (if mode c = normal \<and> gridConnected c
                   then s4\<lparr>inputFrequency := 498 / 10 + rndInputFrequency r * (4 / 10)\<rparr>
                   else if mode c = pv \<and> solarConnected c
                   then s4\<lparr>inputFrequency := 0\<rparr>
                   else s4\<lparr>inputFrequency := 0\<rparr>);
             s6 = (if on \<and> outputFrequency c > 0
                   then s5\<lparr>outputFrequency := 499 / 10 + rndOutputFrequency r * (2 / 10)\<rparr>
                   else s5)
         in if on \<and> rndFault r < 1 / 1000 \<and> \<not> faultCondition c
            then s6\<lparr>faultCondition := True\<rparr> else s6)
      else s)"

text \<open>
  The interval is re-installed whenever one of the values it reads changes, so at each
  firing the values it closed over are those of the current state.
\<close>

definition simTick :: "bool \<Rightarrow> TickRandoms \<Rightarrow> InverterState \<Rightarrow> InverterState" where
  "simTick on r s = (if on then heatupTick on r s s else cooldownTick s)"

subsection \<open>Screen, power toggle and buttons\<close>

text \<open>
  \<open>setTimeout\<close> callbacks are kept as data: a handler returns the timers it starts,
  each with its delay in milliseconds, and \<open>fireTimer\<close> is what a timer does when it
  fires.
\<close>

datatype TimerAction =
    SetScreenBrightness real
  | SetBootup nat real
  | SetLoadPercentage real
  | SetFanSpeed real
  | SetOutputFrequency real
  | ResetFault

definition fireTimer :: "TimerAction \<Rightarrow> InverterState \<Rightarrow> InverterState" where
  "fireTimer a s = (case a of
       SetScreenBrightness b \<Rightarrow> s\<lparr>screenBrightness := b\<rparr>
     | SetBootup ph b \<Rightarrow> s\<lparr>bootupPhase := ph, screenBrightness := b\<rparr>
     | SetLoadPercentage v \<Rightarrow> s\<lparr>loadPercentage := v\<rparr>
     | SetFanSpeed v \<Rightarrow> s\<lparr>fanSpeed := v\<rparr>
     | SetOutputFrequency v \<Rightarrow> s\<lparr>outputFrequency := v\<rparr>
     | ResetFault \<Rightarrow> s\<lparr>faultCondition := False\<rparr>)"

text \<open>
  A handler reads the values of the render that created it (\<open>c\<close>) and queues updates
  on the state (\<open>s\<close>); \<open>activateScreen\<close> tests the \<open>screenActive\<close> it closed over.
\<close>

definition activateScreen ::
  "InverterState \<Rightarrow> InverterState \<Rightarrow> InverterState \<times> (nat \<times> TimerAction) list" where
  "activateScreen c s =
     (if screenActive c then (s, [])
      else (s\<lparr>screenActive := True, bootupPhase := 0, screenBrightness := 1 / 10\<rparr>,
            [(100, SetScreenBrightness (2 / 10)),
             (1200, SetBootup 1 (3 / 10)),
             (2400, SetBootup 2 (6 / 10)),
             (3500, SetBootup 3 1)]))"

text \<open>
  \<open>toggleInverter\<close>. The on/off value is the prop \<open>inverterOn\<close>, owned by the parent:
  the handler computes \<open>newState = !inverterOn\<close> and hands it to the required callback
  \<open>onInverterChange\<close>, modelled as a transformer of the parent's state \<open>'p\<close>. The
  result is the widget's own state, the timers started and the parent's state after
  the callback.
\<close>

definition toggleInverter ::
  "InverterProps \<Rightarrow> (bool \<Rightarrow> 'p \<Rightarrow> 'p) \<Rightarrow> InverterState \<Rightarrow> 'p
     \<Rightarrow> InverterState \<times> (nat \<times> TimerAction) list \<times> 'p" where
  "toggleInverter p onInverterChange s parent =
     (let newState = (\<not> inverterOn p);
          parent' = onInverterChange newState parent
      in if newState then
           (let (s1, t1) = (if \<not> screenActive s then activateScreen s s else (s, []));
                t2 = [(500, SetLoadPercentage (js_or (initialLoadPercentage p) 0)),
                      (1000, SetFanSpeed 20),
                      (1500, SetOutputFrequency (js_or (initialFrequency p) 50))];
                s2 = (if mode s = pv then
                        s1\<lparr>solarConnected := True, batteryConnected := True,
                           gridConnected := False\<rparr>
                      else if mode s = normal then
                        s1\<lparr>gridConnected := True, solarConnected := False\<rparr>
                      else
                        s1\<lparr>batteryConnected := True, gridConnected := False,
                           solarConnected := False\<rparr>)
            in (s2, t1 @ t2, parent'))
         else
           (s\<lparr>loadPercentage := 0, fanSpeed := 0, outputFrequency := 0,
              inputFrequency := 0, screenActive := False, screenBrightness := 0\<rparr>,
            [], parent'))"

text \<open>The effect that follows the prop: \<open>setShowActivatePrompt(!inverterOn)\<close>.\<close>

definition promptEffect :: "InverterProps \<Rightarrow> InverterState \<Rightarrow> InverterState" where
  "promptEffect p s = s\<lparr>showActivatePrompt := (\<not> inverterOn p)\<rparr>"

definition modes :: "Mode list" where
  "modes = [normal, pv, battery]"

definition changeMode :: "InverterState \<Rightarrow> InverterState" where
  "changeMode s =
     (let newModeIndex = (selectedMode s + 1) mod 3
      in s\<lparr>selectedMode := newModeIndex, mode := modes ! newModeIndex\<rparr>)"

text \<open>
  The four front buttons. Each handler first plays the click sound (\<open>playSound\<close>, of
  a module that is not part of the sources; playing a sound changes no state of the
  widget and is left out).
\<close>

definition configClick :: "InverterState \<Rightarrow> InverterState \<times> (nat \<times> TimerAction) list" where
  "configClick s =
     (let (s1, t1) = (if \<not> screenActive s then activateScreen s (s\<lparr>configMode := (\<not> configMode s)\<rparr>)
                      else (s\<lparr>configMode := (\<not> configMode s)\<rparr>, []))
      in if configMode s then (s1\<lparr>displayOption := (displayOption s1 + 1) mod 3\<rparr>, t1)
         else (s1, t1))"

definition modeClick :: "InverterState \<Rightarrow> InverterState \<times> (nat \<times> TimerAction) list" where
  "modeClick s =
     (if screenActive s then
        (let s1 = changeMode s
         in (if mode s = pv then s1\<lparr>solarConnected := True, gridConnected := False\<rparr>
             else if mode s = normal then s1\<lparr>gridConnected := True\<rparr>
             else s1\<lparr>batteryConnected := True, gridConnected := False\<rparr>, []))
      else activateScreen s s)"

definition readingClick :: "InverterState \<Rightarrow> InverterState \<times> (nat \<times> TimerAction) list" where
  "readingClick s =
     (if screenActive s then
        (let s1 = s\<lparr>displayOption := (displayOption s + 1) mod 3,
                   inputVoltage := (if inputVoltage s = 48 then 52
                                    else if inputVoltage s = 52 then 56 else 48),
                   loadPercentage := min 100 (loadPercentage s + 10)\<rparr>
         in (if loadPercentage s > 90 then s1\<lparr>loadPercentage := 0\<rparr> else s1, []))
      else activateScreen s s)"

definition enterClick ::
  "InverterProps \<Rightarrow> (bool \<Rightarrow> 'p \<Rightarrow> 'p) \<Rightarrow> InverterState \<Rightarrow> 'p
     \<Rightarrow> InverterState \<times> (nat \<times> TimerAction) list \<times> 'p" where
  "enterClick p onInverterChange s parent =
     (let (s1, t1, parent') = toggleInverter p onInverterChange s parent;
          (s2, t2) = (if \<not> inverterOn p \<and> \<not> screenActive s then activateScreen s s1 else (s1, []));
          s3 = (if \<not> inverterOn p then
                  (if mode s = pv then s2\<lparr>solarConnected := True\<rparr>
                   else if mode s = normal then s2\<lparr>gridConnected := True\<rparr>
                   else s2\<lparr>batteryConnected := True\<rparr>)
                else s2)
      in (s3, t1 @ t2, parent'))"

subsection \<open>Audio elements: the load-error handlers\<close>

definition silentBlob :: AudioSrc where
  "silentBlob = BlobUrl [0, 0, 0, 0, 0] ''audio/mp3''"

definition warningFor :: "AudioElem \<Rightarrow> string" where
  "warningFor e = (case e of
       inverterHum \<Rightarrow> ''Sound file not found: inverter-hum.mp3 - Audio features disabled''
     | fanNoise \<Rightarrow> ''Sound file not found: fan-noise.mp3 - Fan sound disabled''
     | buttonClick \<Rightarrow> ''Sound file not found: button-click.mp3 - Button click sound disabled''
     | alarm \<Rightarrow> ''Sound file not found: alarm.mp3 - Alarm sound disabled'')"

text \<open>
  The \<open>onError\<close> attribute of element \<open>e\<close>: the element's \<open>src\<close> becomes the object URL
  of a five-byte blob of zeros typed \<open>audio/mp3\<close>, a warning goes to the console, and
  the hum and the fan handlers also zero their volume state. The handler returns
  normally; it has no branch that throws.
\<close>

definition onError :: "AudioElem \<Rightarrow> InverterState \<Rightarrow> InverterState" where
  "onError e s =
     (let s1 = s\<lparr>audioSrc := (audioSrc s)(e := silentBlob),
                consoleWarnings := consoleWarnings s @ [warningFor e]\<rparr>
      in case e of
           inverterHum \<Rightarrow> s1\<lparr>humVolume := 0\<rparr>
         | fanNoise \<Rightarrow> s1\<lparr>fanVolume := 0\<rparr>
         | buttonClick \<Rightarrow> s1
         | alarm \<Rightarrow> s1)"

subsection \<open>Runs of the widget\<close>

text \<open>
  Everything that can change the widget's state between mount and unmount. The prop
  \<open>inverterOn\<close> changes only when the parent renders the widget with a new value
  (\<open>ParentRenders\<close>); the callback of a toggle is here a parent that does nothing with
  the value, the parent's reaction being a \<open>ParentRenders\<close> event of its own.
\<close>

datatype InverterEvent =
    Tick TickRandoms
  | ToggleClick
  | EnterClick
  | ConfigClick
  | ModeClick
  | ReadingClick
  | TimerFires TimerAction
  | AudioError AudioElem
  | Hover bool
  | ParentRenders bool

definition inverterStep :: "InverterProps \<times> InverterState \<Rightarrow> InverterEvent \<Rightarrow> InverterProps \<times> InverterState" where
  "inverterStep ps ev =
     (let p = fst ps; s = snd ps in
      case ev of
        Tick r \<Rightarrow> (p, simTick (inverterOn p) r s)
      | ToggleClick \<Rightarrow> (p, fst (toggleInverter p (\<lambda>v u. u) s ()))
      | EnterClick \<Rightarrow> (p, fst (enterClick p (\<lambda>v u. u) s ()))
      | ConfigClick \<Rightarrow> (p, fst (configClick s))
      | ModeClick \<Rightarrow> (p, fst (modeClick s))
      | ReadingClick \<Rightarrow> (p, fst (readingClick s))
      | TimerFires a \<Rightarrow> (p, fireTimer a s)
      | AudioError e \<Rightarrow> (p, onError e s)
      | Hover b \<Rightarrow> (p, s\<lparr>hovered := b\<rparr>)
      | ParentRenders b \<Rightarrow> (p\<lparr>inverterOn := b\<rparr>, promptEffect (p\<lparr>inverterOn := b\<rparr>) s))"

definition inverterRun :: "InverterProps \<Rightarrow> InverterEvent list \<Rightarrow> InverterProps \<times> InverterState" where
  "inverterRun p evs = foldl inverterStep (p, inverterInit p) evs"

section \<open>StaticSolarPanelNode\<close>

datatype Orientation = south | east | west | north

datatype Weather = sunny | cloudy | rainy | night

text \<open>
  The props of the panel. \<open>efficiency\<close> and \<open>temperature\<close> are also names of the
  inverter's state, so the panel's carry the prefix \<open>panel\<close> here. The two callback
  props are passed to the handlers as arguments.
\<close>

record SolarProps =
  prop_panelOn :: "bool option"
  prop_outputPower :: "real option"
  prop_sunIntensity :: "real option"
  prop_panelEfficiency :: "real option"
  prop_panelTemperature :: "real option"
  prop_tiltAngle :: "real option"
  prop_orientation :: "Orientation option"

record SolarState =
  panelOn :: bool
  outputPower :: real
  sunIntensity :: real
  panelEfficiency :: real
  panelTemperature :: real
  tiltAngle :: real
  orientation :: Orientation
  timeOfDay :: real
  weather :: Weather
  cellHighlight :: "real list"
  showControls :: bool


subsection \<open>The power calculation effect\<close>





subsection \<open>The controls\<close>

text \<open>
  \<open>togglePanel\<close> flips the state with a functional updater (it reads the current
  state \<open>s\<close>) and calls \<open>onPanelChange\<close>, when given, with the negation of the
  \<open>panelOn\<close> it closed over (\<open>c\<close>). A click runs the handler of the current render.
\<close>

definition togglePanel ::
  "(bool \<Rightarrow> 'p \<Rightarrow> 'p) option \<Rightarrow> SolarState \<Rightarrow> SolarState \<Rightarrow> 'p \<Rightarrow> SolarState \<times> 'p" where
  "togglePanel onPanelChange c s parent =
     (s\<lparr>panelOn := (\<not> panelOn s)\<rparr>,
      case onPanelChange of None \<Rightarrow> parent | Some f \<Rightarrow> f (\<not> panelOn c) parent)"

definition panelClick ::
  "(bool \<Rightarrow> 'p \<Rightarrow> 'p) option \<Rightarrow> SolarState \<times> 'p \<Rightarrow> SolarState \<times> 'p" where
  "panelClick onPanelChange sp = togglePanel onPanelChange (fst sp) (fst sp) (snd sp)"

definition changeTimeOfDay :: "real \<Rightarrow> real \<Rightarrow> SolarState \<Rightarrow> SolarState" where
  "changeTimeOfDay newTime rnd s =
     (let w = (if newTime < 6 \<or> newTime > 18 then night
               else if newTime > 10 \<and> newTime < 16 then (if rnd > 7 / 10 then cloudy else sunny)
               else (if rnd > 5 / 10 then cloudy else sunny));
          baseIntensity = sin (((newTime - 6) / 12) * pi) * 100
      in s\<lparr>timeOfDay := newTime, weather := w,
           sunIntensity := max 0 (min 100 baseIntensity)\<rparr>)"

definition changeTilt :: "real \<Rightarrow> SolarState \<Rightarrow> SolarState" where
  "changeTilt newTilt s = s\<lparr>tiltAngle := max 0 (min 90 newTilt)\<rparr>"

definition toggleControls :: "SolarState \<Rightarrow> SolarState" where
  "toggleControls s = s\<lparr>showControls := (\<not> showControls s)\<rparr>"

section \<open>StaticMonitorNode\<close>

text \<open>
  The monitor keeps the chart and the time it shows. The time is read from the clock
  (\<open>new Date().toLocaleTimeString()\<close>), at mount and then every second; the reading
  is an argument of the model.
\<close>

datatype MonitorType = hub | meter | standard

record MonitorProps =
  monitor_position :: "real \<times> real"
  monitor_scale :: "real option"
  prop_monitorOn :: "bool option"
  monitor_type :: "MonitorType option"

record MonitorState =
  chartData :: "real list"
  currentTime :: string

text \<open>The two \<open>useState\<close> initialisers; neither reads a prop.\<close>

definition monitorInit :: "MonitorProps \<Rightarrow> string \<Rightarrow> MonitorState" where
  "monitorInit p now = \<lparr> chartData = [50, 60, 55, 65, 70, 65, 75], currentTime = now \<rparr>"

definition newValue :: "real \<Rightarrow> real" where
  "newValue rnd = Math_floor (rnd * 30) + 50"

text \<open>The 2-second interval: \<open>[...prev.slice(1), newValue]\<close>.\<close>

definition dataTick :: "real \<Rightarrow> MonitorState \<Rightarrow> MonitorState" where
  "dataTick rnd s = s\<lparr>chartData := drop 1 (chartData s) @ [newValue rnd]\<rparr>"

definition timeTick :: "string \<Rightarrow> MonitorState \<Rightarrow> MonitorState" where
  "timeTick now s = s\<lparr>currentTime := now\<rparr>"

datatype MonitorEvent = DataTick real | TimeTick string

text \<open>Both intervals exist only while \<open>monitorOn\<close> holds.\<close>

definition monitorOn :: "MonitorProps \<Rightarrow> bool" where
  "monitorOn p = dflt False (prop_monitorOn p)"

definition monitorStep :: "MonitorProps \<Rightarrow> MonitorState \<Rightarrow> MonitorEvent \<Rightarrow> MonitorState" where
  "monitorStep p s ev =
     (if monitorOn p then (case ev of DataTick rnd \<Rightarrow> dataTick rnd s | TimeTick now \<Rightarrow> timeTick now s)
      else s)"

section \<open>RightAngleConnection\<close>

record Position =
  pos_x :: real
  pos_y :: real

datatype CornerPosition = Auto | HorizontalFirst | VerticalFirst

record ConnectionProps =
  conn_from :: Position
  conn_to :: Position
  active :: bool
  prop_cornerPosition :: "CornerPosition option"

definition cornerPosition :: "ConnectionProps \<Rightarrow> CornerPosition" where
  "cornerPosition p = dflt HorizontalFirst (prop_cornerPosition p)"

definition getCornerPosition :: "ConnectionProps \<Rightarrow> Position" where
  "getCornerPosition p =
     (if cornerPosition p = HorizontalFirst then
        \<lparr> pos_x = pos_x (conn_to p), pos_y = pos_y (conn_from p) \<rparr>
      else if cornerPosition p = VerticalFirst then
        \<lparr> pos_x = pos_x (conn_from p), pos_y = pos_y (conn_to p) \<rparr>
      else
        (let horizontalDistance = \<bar>pos_x (conn_to p) - pos_x (conn_from p)\<bar>;
             verticalDistance = \<bar>pos_y (conn_to p) - pos_y (conn_from p)\<bar>
         in if horizontalDistance > verticalDistance
            then \<lparr> pos_x = pos_x (conn_from p), pos_y = pos_y (conn_to p) \<rparr>
            else \<lparr> pos_x = pos_x (conn_to p), pos_y = pos_y (conn_from p) \<rparr>))"

subsection \<open>The particle animation effect\<close>

record Particle =
  pid :: nat
  progress :: real
  speed :: real

text \<open>
  The body of the effect: it empties the list when the connection is inactive, and
  otherwise creates five particles, \<open>rnd i\<close> being the draw for particle \<open>i\<close>, and
  starts the 16 ms interval. The speed is computed in doubles; the start progress
  \<open>(i * 20) % 100\<close> is a small integer and exact.
\<close>

definition particleEffect :: "bool \<Rightarrow> (nat \<Rightarrow> real) \<Rightarrow> Particle list" where
  "particleEffect act rnd =
     (if \<not> act then []
      else map (\<lambda>i. \<lparr> pid = i, progress = js_rem (real i * 20) 100,
                       speed = dadd (1 / 2) (dmul (rnd i) (1 / 2)) \<rparr>) [0..<5])"

definition animationTick :: "Particle list \<Rightarrow> Particle list" where
  "animationTick currentParticles =
     map (\<lambda>particle.
            particle\<lparr>progress := js_rem (dadd (progress particle) (speed particle)) 100\<rparr>)
       currentParticles"

text \<open>
  The state of a mounted connection: the \<open>active\<close> of the render that is on screen,
  the particle list, and the value of \<open>active\<close> for which the effect last ran
  (\<open>None\<close> before it ever ran). The component mounts with \<open>useState([])\<close>; the effect,
  whose dependency is \<open>active\<close>, runs after the commit of the first render and of
  every render in which \<open>active\<close> differs from the value it last ran for. The cleanup
  of the effect clears the interval, so the interval is alive exactly while the
  effect last ran for \<open>true\<close>. The framework runs a pending effect before it renders
  the component again.
\<close>

record ConnectionState =
  shownActive :: bool
  particles :: "Particle list"
  effectFor :: "bool option"

datatype ConnectionEvent = Render bool "nat \<Rightarrow> real" | EffectRuns "nat \<Rightarrow> real" | AnimationTick

definition connectionMount :: "bool \<Rightarrow> ConnectionState" where
  "connectionMount act = \<lparr> shownActive = act, particles = [], effectFor = None \<rparr>"

definition runEffect :: "(nat \<Rightarrow> real) \<Rightarrow> ConnectionState \<Rightarrow> ConnectionState" where
  "runEffect rnd st =
     (if effectFor st = Some (shownActive st) then st
      else st\<lparr>particles := particleEffect (shownActive st) rnd,
              effectFor := Some (shownActive st)\<rparr>)"

definition connectionStep :: "ConnectionState \<Rightarrow> ConnectionEvent \<Rightarrow> ConnectionState" where
  "connectionStep st ev =
     (case ev of
        Render act rnd \<Rightarrow> (runEffect rnd st)\<lparr>shownActive := act\<rparr>
      | EffectRuns rnd \<Rightarrow> runEffect rnd st
      | AnimationTick \<Rightarrow>
          (if effectFor st = Some True then st\<lparr>particles := animationTick (particles st)\<rparr>
           else st))"

definition connectionRun :: "bool \<Rightarrow> ConnectionEvent list \<Rightarrow> ConnectionState" where
  "connectionRun act evs = foldl connectionStep (connectionMount act) evs"

definition draws_ok :: "(nat \<Rightarrow> real) \<Rightarrow> bool" where
  "draws_ok rnd = (is_random (rnd 0) \<and> is_random (rnd 1) \<and> is_random (rnd 2)
                    \<and> is_random (rnd 3) \<and> is_random (rnd 4))"

definition connection_event_ok :: "ConnectionEvent \<Rightarrow> bool" where
  "connection_event_ok ev =
     (case ev of Render act rnd \<Rightarrow> draws_ok rnd | EffectRuns rnd \<Rightarrow> draws_ok rnd
      | AnimationTick \<Rightarrow> True)"

text \<open>
  What holds of a particle, and of the list for a value of \<open>active\<close>. The speed can
  be 1: the sum \<open>0.5 + r * 0.5\<close> is rounded, and for the largest draw it rounds up.
\<close>

definition particle_ok :: "Particle \<Rightarrow> bool" where
  "particle_ok q = (1 / 2 \<le> speed q \<and> speed q \<le> 1 \<and> 0 \<le> progress q \<and> progress q < 100)"

definition particles_inv :: "bool \<Rightarrow> Particle list \<Rightarrow> bool" where
  "particles_inv act ps =
     (if act then length ps = 5 \<and> list_all particle_ok ps else ps = [])"

definition effect_done :: "ConnectionState \<Rightarrow> bool" where
  "effect_done st = (effectFor st = Some (shownActive st))"

text \<open>
  What holds at every moment, whether or not the pending effect has run: the list
  fits the value of \<open>active\<close> for which the effect last ran (no particle before it
  ever ran).
\<close>

definition fits_effect :: "ConnectionState \<Rightarrow> bool" where
  "fits_effect st = particles_inv (effectFor st = Some True) (particles st)"

subsection \<open>Particle positions\<close>

text \<open>
  A quotient of the source is a finite number only when the divisor is not zero;
  \<open>x / 0\<close> is an infinity or NaN. In \<open>getParticlePosition\<close> the divisor is the length
  of a segment, and when that is zero both coordinate differences of the segment are
  zero too, so the quotient is multiplied by zero and both coordinates of the result
  are NaN. \<open>None\<close> stands for that result.
\<close>

definition js_div :: "real \<Rightarrow> real \<Rightarrow> real option" where
  "js_div a b = (if b = 0 then None else Some (a / b))"

definition segment1Length :: "ConnectionProps \<Rightarrow> real" where
  "segment1Length p =
     (let corner = getCornerPosition p
      in sqrt ((pos_x corner - pos_x (conn_from p))\<^sup>2 + (pos_y corner - pos_y (conn_from p))\<^sup>2))"

definition segment2Length :: "ConnectionProps \<Rightarrow> real" where
  "segment2Length p =
     (let corner = getCornerPosition p
      in sqrt ((pos_x (conn_to p) - pos_x corner)\<^sup>2 + (pos_y (conn_to p) - pos_y corner)\<^sup>2))"

definition getParticlePosition :: "ConnectionProps \<Rightarrow> real \<Rightarrow> Position option" where
  "getParticlePosition p prog =
     (let corner = getCornerPosition p;
          totalPathLength = segment1Length p + segment2Length p;
          progressAlongPath = (prog / 100) * totalPathLength
      in if progressAlongPath \<le> segment1Length p then
           (case js_div progressAlongPath (segment1Length p) of
              None \<Rightarrow> None
            | Some segmentProgress \<Rightarrow>
                Some \<lparr> pos_x = pos_x (conn_from p) + segmentProgress * (pos_x corner - pos_x (conn_from p)),
                       pos_y = pos_y (conn_from p) + segmentProgress * (pos_y corner - pos_y (conn_from p)) \<rparr>)
         else
           (case js_div (progressAlongPath - segment1Length p) (segment2Length p) of
              None \<Rightarrow> None
            | Some segmentProgress \<Rightarrow>
                Some \<lparr> pos_x = pos_x corner + segmentProgress * (pos_x (conn_to p) - pos_x corner),
                       pos_y = pos_y corner + segmentProgress * (pos_y (conn_to p) - pos_y corner) \<rparr>))"

text \<open>
  A point lies on the segment from \<open>a\<close> to \<open>b\<close> when it is collinear with the two ends
  and inside their bounding box; the path is the two segments through the corner.
\<close>

definition on_segment :: "Position \<Rightarrow> Position \<Rightarrow> Position \<Rightarrow> bool" where
  "on_segment a b q =
     ((pos_x b - pos_x a) * (pos_y q - pos_y a) = (pos_y b - pos_y a) * (pos_x q - pos_x a) \<and>
      min (pos_x a) (pos_x b) \<le> pos_x q \<and> pos_x q \<le> max (pos_x a) (pos_x b) \<and>
      min (pos_y a) (pos_y b) \<le> pos_y q \<and> pos_y q \<le> max (pos_y a) (pos_y b))"

definition on_path :: "ConnectionProps \<Rightarrow> Position \<Rightarrow> bool" where
  "on_path p q =
     (on_segment (conn_from p) (getCornerPosition p) q \<or>
      on_segment (getCornerPosition p) (conn_to p) q)"

definition on_path_result :: "ConnectionProps \<Rightarrow> Position option \<Rightarrow> bool" where
  "on_path_result p r = (case r of None \<Rightarrow> False | Some q \<Rightarrow> on_path p q)"

section \<open>Rendering\<close>

text \<open>
  What a component returns is a tree of elements. An element has a tag, attributes,
  the entries of its \<open>style\<close> object and children; a value is a string, a number, or a
  number formatted into a string by a template (\<open>`${position.x}px`\<close>).

  A component is a JavaScript function that the framework calls with the props. Its
  body can read more than the props: the random source and the clock (the diagram
  draws \<open>Math.random()\<close> while it renders, the monitor reads the time), and through
  the hooks the state cells and timers that the framework keeps for the mounted
  instance. So a render takes the props, the environment and the instance's record,
  and returns the tree and the record as the render leaves it.
\<close>

datatype AttrValue = Str string | Num real | Fmt string real string

datatype Element =
  Elem (tag: string) (attrs: "(string \<times> AttrValue) list")
    (styles: "(string \<times> AttrValue) list") (children: "Element list")

record RenderEnv =
  randomDraws :: "nat \<Rightarrow> real"
  clockNow :: string




section \<open>TraditionalBulbNode\<close>






section \<open>EnergyFlowDiagram\<close>

record DiagramState =
  isActive :: bool
  isAnimating :: bool

definition diagramInit :: DiagramState where
  "diagramInit = \<lparr> isActive = False, isAnimating = False \<rparr>"

datatype DiagramTimer = EndAnimation

text \<open>
  \<open>toggleActivation\<close> reads \<open>isActive\<close> of the render whose button was clicked; the
  diagram has no change callback.
\<close>

definition toggleActivation :: "DiagramState \<Rightarrow> DiagramState \<times> (nat \<times> DiagramTimer) list" where
  "toggleActivation s =
     (let s1 = s\<lparr>isActive := (\<not> isActive s)\<rparr>
      in if \<not> isActive s then (s1\<lparr>isAnimating := True\<rparr>, [(3000, EndAnimation)])
         else (s1, []))"

definition activationClick :: "DiagramState \<Rightarrow> DiagramState" where
  "activationClick s = fst (toggleActivation s)"

text \<open>
  The diagram renders a \<open>StaticInverterNode\<close> whose props follow \<open>isActive\<close> and whose
  \<open>onInverterChange\<close> is the empty function \<open>() => {}\<close>.
\<close>

definition diagramInverterProps :: "DiagramState \<Rightarrow> InverterProps" where
  "diagramInverterProps s = \<lparr>
     inverterOn = isActive s,
     prop_gridConnected = Some False,
     prop_solarConnected = Some (isActive s),
     prop_batteryConnected = Some (isActive s),
     prop_loadPercentage = Some (if isActive s then 60 else 0),
     prop_efficiency = None,
     prop_inputVoltage = None,
     prop_outputVoltage = None,
     prop_frequency = None,
     prop_batteryLevel = None,
     prop_batteryCharging = None,
     prop_totalEnergyGenerated = None,
     prop_temperature = None,
     prop_fanSpeed = None,
     prop_mode = Some (if isActive s then pv else normal) \<rparr>"

definition diagramOnInverterChange :: "bool \<Rightarrow> DiagramState \<Rightarrow> DiagramState" where
  "diagramOnInverterChange v s = s"

text \<open>A click on the power control of the inverter drawn inside the diagram.\<close>

definition diagramInverterClick :: "DiagramState \<times> InverterState \<Rightarrow> DiagramState \<times> InverterState" where
  "diagramInverterClick ds =
     (let r = toggleInverter (diagramInverterProps (fst ds)) diagramOnInverterChange (snd ds) (fst ds)
      in (snd (snd r), fst r))"

text \<open>
  The background of the diagram is drawn in the component's body: twenty dots whose
  size, place and animation come from \<open>Math.random()\<close>, five draws for each dot in
  the order of the source. It is the part of a render in this repository that does
  read the environment.
\<close>

definition backgroundDot :: "RenderEnv \<Rightarrow> nat \<Rightarrow> Element" where
  "backgroundDot env i =
     Elem ''div''
       [(''key'', Num (real i)),
        (''className'', Str ''absolute rounded-full bg-green-500 opacity-10'')]
       [(''width'', Fmt '''' (dadd (dmul (randomDraws env (5 * i)) 3) 1) ''px''),
        (''height'', Fmt '''' (dadd (dmul (randomDraws env (5 * i + 1)) 3) 1) ''px''),
        (''top'', Fmt '''' (dmul (randomDraws env (5 * i + 2)) 100) ''%''),
        (''left'', Fmt '''' (dmul (randomDraws env (5 * i + 3)) 100) ''%''),
        (''animation'',
           Fmt ''float '' (dadd (dmul (randomDraws env (5 * i + 4)) 10) 10) ''s linear infinite'')]
       []"

definition diagramBackground :: "RenderEnv \<Rightarrow> Element list" where
  "diagramBackground env = map (backgroundDot env) [0..<20]"

section \<open>Predicates and sample inputs of the properties\<close>

definition battery_ok :: "InverterState \<Rightarrow> bool" where
  "battery_ok s = (0 \<le> batteryLevel s \<and> batteryLevel s \<le> 100)"

definition chart_value_ok :: "real \<Rightarrow> bool" where
  "chart_value_ok v = (v \<in> \<int> \<and> 50 \<le> v \<and> v \<le> 79)"

definition chart_ok :: "MonitorState \<Rightarrow> bool" where
  "chart_ok s = (length (chartData s) = 7 \<and> list_all chart_value_ok (chartData s))"

definition monitor_event_ok :: "MonitorEvent \<Rightarrow> bool" where
  "monitor_event_ok ev = (case ev of DataTick rnd \<Rightarrow> is_random rnd | TimeTick now \<Rightarrow> True)"

text \<open>
  Sample inputs: the diagram once activated, whose props for the inverter are used to
  mount a sample inverter, and a tick's draws.
\<close>

definition activeDiagram :: DiagramState where
  "activeDiagram = \<lparr> isActive = True, isAnimating = False \<rparr>"

definition halfRandoms :: TickRandoms where
  "halfRandoms = \<lparr> rndVariation = 1 / 2, rndFan = 1 / 2, rndGeneration = 1 / 2,
     rndInputFrequency = 1 / 2, rndOutputFrequency = 1 / 2, rndFault = 1 / 2 \<rparr>"

definition sampleMonitorProps :: MonitorProps where
  "sampleMonitorProps = \<lparr> monitor_position = (0, 0), monitor_scale = None,
     prop_monitorOn = Some True, monitor_type = None \<rparr>"

definition halfDraws :: "nat \<Rightarrow> real" where
  "halfDraws i = 1 / 2"

text \<open>Sample connections: a straight horizontal line, a straight vertical line and a bent one.\<close>

definition horizontalLine :: ConnectionProps where
  "horizontalLine = \<lparr> conn_from = \<lparr> pos_x = 0, pos_y = 0 \<rparr>,
     conn_to = \<lparr> pos_x = 10, pos_y = 0 \<rparr>, active = True, prop_cornerPosition = None \<rparr>"

definition verticalLine :: ConnectionProps where
  "verticalLine = \<lparr> conn_from = \<lparr> pos_x = 0, pos_y = 0 \<rparr>,
     conn_to = \<lparr> pos_x = 0, pos_y = 10 \<rparr>, active = True, prop_cornerPosition = None \<rparr>"

definition bentLine :: ConnectionProps where
  "bentLine = \<lparr> conn_from = \<lparr> pos_x = 0, pos_y = 0 \<rparr>,
     conn_to = \<lparr> pos_x = 30, pos_y = 10 \<rparr>, active = True, prop_cornerPosition = None \<rparr>"







text \<open>
  Sample panels: the defaults; a panel with a steep tilt; and a panel in the dark
  whose parent passes an \<open>outputPower\<close>.
\<close>

definition defaultSolarProps :: SolarProps where
  "defaultSolarProps = \<lparr> prop_panelOn = None, prop_outputPower = None, prop_sunIntensity = None,
     prop_panelEfficiency = None, prop_panelTemperature = None, prop_tiltAngle = None,
     prop_orientation = None \<rparr>"





definition quietEnv :: RenderEnv where
  "quietEnv = \<lparr> randomDraws = (\<lambda>i. 0), clockNow = ''10:00:00'' \<rparr>"

definition busyEnv :: RenderEnv where
  "busyEnv = \<lparr> randomDraws = halfDraws, clockNow = ''10:00:01'' \<rparr>"



text \<open>The largest draw a double allows below 1.\<close>

definition lastDraw :: "nat \<Rightarrow> real" where
  "lastDraw i = 1 - 1 / 2 ^ 53"

text \<open>
  A life of a connection: mounted active, the effect, a tick, deactivated, the effect,
  activated again, the effect, a tick.
\<close>

definition sampleRun :: "ConnectionEvent list" where
  "sampleRun = [EffectRuns halfDraws, AnimationTick, Render False halfDraws,
     EffectRuns halfDraws, Render True halfDraws, EffectRuns halfDraws, AnimationTick]"

section \<open>Properties\<close>

subsection \<open>Rounding of a scaled draw\<close>

lemma Math_round_jitter:
  assumes "is_random r"
  shows "0 \<le> Math_round (r * 5) \<and> Math_round (r * 5) \<le> 5"
proof -
  from assms have a: "0 \<le> r * 5 + 1 / 2" and b: "r * 5 + 1 / 2 < 6"
    by (simp_all add: is_random_def)
  from a have "0 \<le> \<lfloor>r * 5 + 1 / 2\<rfloor>" by simp
  moreover from b have "\<lfloor>r * 5 + 1 / 2\<rfloor> < 6" by (simp add: floor_less_iff)
  ultimately show ?thesis by (simp add: Math_round_def)
qed

lemma newValue_range:
  assumes "is_random r"
  shows "chart_value_ok (newValue r)"
proof -
  from assms have a: "0 \<le> r * 30" and b: "r * 30 < 30" by (simp_all add: is_random_def)
  from a have "0 \<le> \<lfloor>r * 30\<rfloor>" by simp
  moreover from b have "\<lfloor>r * 30\<rfloor> < 30" by (simp add: floor_less_iff)
  ultimately show ?thesis by (simp add: chart_value_ok_def newValue_def Math_floor_def)
qed

subsection \<open>The cooldown easing\<close>

lemma cooldownStep_ge: "35 \<le> cooldownStep t"
  by (simp add: cooldownStep_def Let_def)

lemma cooldownStep_le: "35 \<le> t \<Longrightarrow> cooldownStep t \<le> t"
  by (simp add: cooldownStep_def Let_def)

lemma cooldownStep_mono:
  assumes "t \<le> u"
  shows "cooldownStep t \<le> cooldownStep u"
proof -
  from assms have "t - (t - 35) / 10 \<le> u - (u - 35) / 10" by (simp add: field_simps)
  then show ?thesis by (simp add: cooldownStep_def Let_def max.coboundedI1)
qed

lemma cooldown_iter_ge: "35 \<le> t \<Longrightarrow> 35 \<le> (cooldownStep ^^ n) t"
  by (induction n) (simp_all add: cooldownStep_ge)

lemma cooldownTick_iter:
  "temperature ((cooldownTick ^^ n) s) = (cooldownStep ^^ n) (temperature s)"
  by (induction n) (simp_all add: cooldownTick_def)

text \<open>
  C7. While the inverter is off, a cooldown tick maps the temperature \<open>t\<close> to
  \<open>max (t - (t - 35) / 10) 35\<close>. The result is at least 35 for any \<open>t\<close>, 35 is a fixed
  point, the map is monotone, and from a start at or above 35 the temperatures of
  successive ticks never increase and never fall below 35.
\<close>

theorem cooldown_easing:
  "temperature (cooldownTick s) = max (temperature s - (temperature s - 35) / 10) 35
   \<and> simTick False r s = cooldownTick s
   \<and> 35 \<le> temperature (cooldownTick s)
   \<and> (temperature s = 35 \<longrightarrow> temperature (cooldownTick s) = 35)
   \<and> (temperature s \<le> temperature s' \<longrightarrow>
        temperature (cooldownTick s) \<le> temperature (cooldownTick s'))
   \<and> (35 \<le> temperature s \<longrightarrow>
        (\<forall>n. 35 \<le> temperature ((cooldownTick ^^ n) s)
           \<and> temperature ((cooldownTick ^^ Suc n) s) \<le> temperature ((cooldownTick ^^ n) s)))"
proof (intro conjI impI allI)
  show "temperature (cooldownTick s) = max (temperature s - (temperature s - 35) / 10) 35"
    by (simp add: cooldownTick_def cooldownStep_def Let_def)
  show "simTick False r s = cooldownTick s"
    by (simp add: simTick_def)
  show "35 \<le> temperature (cooldownTick s)"
    by (simp add: cooldownTick_def cooldownStep_ge)
  show "temperature (cooldownTick s) = 35" if "temperature s = 35"
    using that by (simp add: cooldownTick_def cooldownStep_def)
  show "temperature (cooldownTick s) \<le> temperature (cooldownTick s')"
    if "temperature s \<le> temperature s'"
    using that by (simp add: cooldownTick_def cooldownStep_mono)
next
  fix n assume h: "35 \<le> temperature s"
  show "35 \<le> temperature ((cooldownTick ^^ n) s)"
    using h by (simp add: cooldownTick_iter cooldown_iter_ge)
  have "cooldownStep ((cooldownStep ^^ n) (temperature s)) \<le> (cooldownStep ^^ n) (temperature s)"
    using h by (intro cooldownStep_le cooldown_iter_ge)
  then show "temperature ((cooldownTick ^^ Suc n) s) \<le> temperature ((cooldownTick ^^ n) s)"
    unfolding cooldownTick_iter by simp
qed

text \<open>
  An inverter mounted with the props that the activated diagram passes starts at 45
  degrees; two cooldown ticks bring it to 44 and then to 43.1.
\<close>

theorem cooldown_easing_witness:
  "35 \<le> temperature (inverterInit (diagramInverterProps activeDiagram))
   \<and> temperature (cooldownTick (inverterInit (diagramInverterProps activeDiagram))) = 44
   \<and> 35 \<le> temperature ((cooldownTick ^^ 2) (inverterInit (diagramInverterProps activeDiagram)))
   \<and> temperature ((cooldownTick ^^ Suc 2) (inverterInit (diagramInverterProps activeDiagram)))
       \<le> temperature ((cooldownTick ^^ 2) (inverterInit (diagramInverterProps activeDiagram)))"
proof -
  let ?s = "inverterInit (diagramInverterProps activeDiagram)"
  have t: "temperature ?s = 45"
    by (simp add: inverterInit_def initialTemperature_def dflt_def diagramInverterProps_def)
  then have h: "35 \<le> temperature ?s" by simp
  note e = cooldown_easing [of ?s halfRandoms ?s]
  from e have first: "temperature (cooldownTick ?s) = max (temperature ?s - (temperature ?s - 35) / 10) 35"
    by (rule conjunct1)
  from e h have rest: "\<forall>n. 35 \<le> temperature ((cooldownTick ^^ n) ?s)
       \<and> temperature ((cooldownTick ^^ Suc n) ?s) \<le> temperature ((cooldownTick ^^ n) ?s)"
    by blast
  from first t have "temperature (cooldownTick ?s) = 44" by simp
  with h rest show ?thesis by blast
qed

subsection \<open>The fan-speed curve\<close>

lemma fan_after_tick:
  "fanSpeed (heatupTick True r c s) = fanSpeedFor (temperature c) (rndFan r)"
  by (simp add: heatupTick_def batteryStep_def Let_def)

lemma fanSpeedFor_base:
  "fanSpeedFor t 0 =
     (if t > 65 then 100 else if t > 55 then 80 else if t > 45 then 60
      else if t > 40 then 40 else 20)"
  by (simp add: fanSpeedFor_def Math_round_def)

lemma fanSpeedFor_jitter:
  assumes "is_random r"
  shows "fanSpeedFor t 0 \<le> fanSpeedFor t r \<and> fanSpeedFor t r \<le> fanSpeedFor t 0 + 5
         \<and> (t > 65 \<longrightarrow> fanSpeedFor t r = 100)"
  using Math_round_jitter [OF assms]
  by (simp add: fanSpeedFor_base) (simp add: fanSpeedFor_def)

lemma fanSpeedFor_bands_apart:
  assumes "is_random r1" "is_random r2" "fanSpeedFor t 0 < fanSpeedFor u 0"
  shows "fanSpeedFor t r1 < fanSpeedFor u r2"
proof -
  have "fanSpeedFor t 0 + 20 \<le> fanSpeedFor u 0"
    using assms(3) by (simp add: fanSpeedFor_base split: if_splits)
  with fanSpeedFor_jitter [OF assms(1), of t] fanSpeedFor_jitter [OF assms(2), of u]
  show ?thesis by linarith
qed

text \<open>
  C6, as stated, fails: the fan speed does not lie in \<open>[20, 100]\<close> at every moment the
  inverter is on. Switching the inverter off sets the fan speed to 0, and switching it
  on again leaves it there (a timer and the next tick set it a second later): after
  the clicks below the inverter is on and its fan speed is 0.
\<close>

theorem fan_speed_zero_while_on:
  "inverterOn (fst (inverterRun (diagramInverterProps activeDiagram)
        [ToggleClick, ParentRenders False, ToggleClick, ParentRenders True]))
   \<and> fanSpeed (snd (inverterRun (diagramInverterProps activeDiagram)
        [ToggleClick, ParentRenders False, ToggleClick, ParentRenders True])) = 0"
  by (simp add: inverterRun_def inverterStep_def diagramInverterProps_def activeDiagram_def
      toggleInverter_def activateScreen_def promptEffect_def inverterInit_def Let_def
      initialMode_def dflt_def)

text \<open>
  C6, amended. The fan speed that a heat-up tick sets is a step function of the
  temperature the tick reads (the temperature before the tick's own update), with a
  jitter of at most 5: exactly 100 above 65 degrees, in \<open>[80, 85]\<close> above 55, in
  \<open>[60, 65]\<close> above 45, in \<open>[40, 45]\<close> above 40 and in \<open>[20, 25]\<close> otherwise. So
  after every heat-up tick the fan speed lies in \<open>[20, 100]\<close>, the curve without
  jitter is monotone in the temperature, and a higher band gives a higher speed
  whatever the two draws are.
\<close>

theorem fan_speed_after_tick:
  assumes "is_random (rndFan r)" and "is_random (rndFan r')"
  shows "(65 < temperature s \<longrightarrow> fanSpeed (simTick True r s) = 100)
    \<and> (55 < temperature s \<and> temperature s \<le> 65 \<longrightarrow>
         80 \<le> fanSpeed (simTick True r s) \<and> fanSpeed (simTick True r s) \<le> 85)
    \<and> (45 < temperature s \<and> temperature s \<le> 55 \<longrightarrow>
         60 \<le> fanSpeed (simTick True r s) \<and> fanSpeed (simTick True r s) \<le> 65)
    \<and> (40 < temperature s \<and> temperature s \<le> 45 \<longrightarrow>
         40 \<le> fanSpeed (simTick True r s) \<and> fanSpeed (simTick True r s) \<le> 45)
    \<and> (temperature s \<le> 40 \<longrightarrow>
         20 \<le> fanSpeed (simTick True r s) \<and> fanSpeed (simTick True r s) \<le> 25)
    \<and> 20 \<le> fanSpeed (simTick True r s) \<and> fanSpeed (simTick True r s) \<le> 100
    \<and> (temperature s \<le> temperature s' \<longrightarrow>
         fanSpeedFor (temperature s) 0 \<le> fanSpeedFor (temperature s') 0)
    \<and> (fanSpeedFor (temperature s) 0 < fanSpeedFor (temperature s') 0 \<longrightarrow>
         fanSpeed (simTick True r s) < fanSpeed (simTick True r' s'))"
proof -
  have f: "fanSpeed (simTick True r s) = fanSpeedFor (temperature s) (rndFan r)"
    and f': "fanSpeed (simTick True r' s') = fanSpeedFor (temperature s') (rndFan r')"
    by (simp_all add: simTick_def fan_after_tick)
  have bands: "(65 < temperature s \<longrightarrow> fanSpeedFor (temperature s) (rndFan r) = 100)
    \<and> (55 < temperature s \<and> temperature s \<le> 65 \<longrightarrow>
         80 \<le> fanSpeedFor (temperature s) (rndFan r) \<and> fanSpeedFor (temperature s) (rndFan r) \<le> 85)
    \<and> (45 < temperature s \<and> temperature s \<le> 55 \<longrightarrow>
         60 \<le> fanSpeedFor (temperature s) (rndFan r) \<and> fanSpeedFor (temperature s) (rndFan r) \<le> 65)
    \<and> (40 < temperature s \<and> temperature s \<le> 45 \<longrightarrow>
         40 \<le> fanSpeedFor (temperature s) (rndFan r) \<and> fanSpeedFor (temperature s) (rndFan r) \<le> 45)
    \<and> (temperature s \<le> 40 \<longrightarrow>
         20 \<le> fanSpeedFor (temperature s) (rndFan r) \<and> fanSpeedFor (temperature s) (rndFan r) \<le> 25)
    \<and> 20 \<le> fanSpeedFor (temperature s) (rndFan r) \<and> fanSpeedFor (temperature s) (rndFan r) \<le> 100"
    using fanSpeedFor_jitter [OF assms(1), of "temperature s"]
    by (simp add: fanSpeedFor_base split: if_splits)
  have mono: "temperature s \<le> temperature s' \<longrightarrow>
         fanSpeedFor (temperature s) 0 \<le> fanSpeedFor (temperature s') 0"
    by (simp add: fanSpeedFor_base)
  have apart: "fanSpeedFor (temperature s) 0 < fanSpeedFor (temperature s') 0 \<longrightarrow>
         fanSpeedFor (temperature s) (rndFan r) < fanSpeedFor (temperature s') (rndFan r')"
    using fanSpeedFor_bands_apart [OF assms] by blast
  from bands mono apart show ?thesis unfolding f f' by blast
qed

text \<open>
  An inverter mounted with the props that the activated diagram passes reads 45
  degrees, so a tick with the draw 1/2 puts the fan in the band \<open>[40, 45]\<close>; the
  same inverter at 70 degrees gets a faster fan.
\<close>

theorem fan_speed_after_tick_witness:
  "is_random (rndFan halfRandoms)
   \<and> 40 < temperature (inverterInit (diagramInverterProps activeDiagram))
   \<and> temperature (inverterInit (diagramInverterProps activeDiagram)) \<le> 45
   \<and> 40 \<le> fanSpeed (simTick True halfRandoms (inverterInit (diagramInverterProps activeDiagram)))
   \<and> fanSpeed (simTick True halfRandoms (inverterInit (diagramInverterProps activeDiagram))) \<le> 45
   \<and> fanSpeedFor (temperature (inverterInit (diagramInverterProps activeDiagram))) 0
       < fanSpeedFor (temperature
           ((inverterInit (diagramInverterProps activeDiagram))\<lparr>temperature := 70\<rparr>)) 0
   \<and> fanSpeed (simTick True halfRandoms (inverterInit (diagramInverterProps activeDiagram)))
       < fanSpeed (simTick True halfRandoms
           ((inverterInit (diagramInverterProps activeDiagram))\<lparr>temperature := 70\<rparr>))"
proof -
  let ?s = "inverterInit (diagramInverterProps activeDiagram)"
  have r: "is_random (rndFan halfRandoms)"
    by (simp add: is_random_def halfRandoms_def)
  have t: "temperature ?s = 45"
    by (simp add: inverterInit_def initialTemperature_def dflt_def diagramInverterProps_def)
  have b: "fanSpeedFor (temperature ?s) 0 < fanSpeedFor (temperature (?s\<lparr>temperature := 70\<rparr>)) 0"
    by (simp add: t fanSpeedFor_base)
  from fan_speed_after_tick [OF r r, of ?s "?s\<lparr>temperature := 70\<rparr>"] r t b
  show ?thesis by simp
qed

subsection \<open>Cosmetic bounds of the displayed numbers\<close>

lemma batteryStep_ok:
  assumes "battery_ok s" "battery_ok c"
  shows "battery_ok (batteryStep c s)"
proof -
  have r: "0 \<le> (1 / 100) * (1 - batteryLevel c / 150)"
    using assms(2) by (simp add: battery_ok_def)
  show ?thesis
    using assms(1) r
    by (auto simp: battery_ok_def batteryStep_def Let_def min_def max_def)
qed

lemma batteryStep_charge_clamp:
  "batteryConnected c \<and> solarConnected c \<and> loadPercentage c < 80 \<Longrightarrow>
     batteryLevel (batteryStep c s) \<le> 100"
  by (simp add: batteryStep_def Let_def)

lemma batteryStep_discharge_clamp:
  "batteryConnected c \<and> \<not> (solarConnected c \<and> loadPercentage c < 80) \<and> 0 < loadPercentage c \<Longrightarrow>
     0 \<le> batteryLevel (batteryStep c s)"
  by (auto simp add: batteryStep_def Let_def)

lemma heatupTick_battery:
  "batteryLevel (heatupTick True r c s) = batteryLevel (batteryStep c s)"
  by (simp add: heatupTick_def batteryStep_def Let_def)

lemma simTick_ok:
  assumes "battery_ok s"
  shows "battery_ok (simTick on r s)"
proof (cases on)
  case True
  from assms have "battery_ok (batteryStep s s)" by (simp add: batteryStep_ok)
  then show ?thesis using True
    by (simp add: simTick_def battery_ok_def heatupTick_battery)
next
  case False
  with assms show ?thesis by (simp add: simTick_def cooldownTick_def battery_ok_def)
qed

lemma toggleInverter_battery: "batteryLevel (fst (toggleInverter p f s u)) = batteryLevel s"
  by (simp add: toggleInverter_def activateScreen_def Let_def split: prod.splits)

lemma enterClick_battery: "batteryLevel (fst (enterClick p f s u)) = batteryLevel s"
  by (simp add: enterClick_def toggleInverter_def activateScreen_def Let_def split: prod.splits)

lemma configClick_battery: "batteryLevel (fst (configClick s)) = batteryLevel s"
  by (simp add: configClick_def activateScreen_def Let_def split: prod.splits)

lemma modeClick_battery: "batteryLevel (fst (modeClick s)) = batteryLevel s"
  by (simp add: modeClick_def changeMode_def activateScreen_def Let_def split: prod.splits)

lemma readingClick_battery: "batteryLevel (fst (readingClick s)) = batteryLevel s"
  by (simp add: readingClick_def activateScreen_def Let_def split: prod.splits)

lemma fireTimer_battery: "batteryLevel (fireTimer a s) = batteryLevel s"
  by (cases a) (simp_all add: fireTimer_def)

lemma onError_battery: "batteryLevel (onError e s) = batteryLevel s"
  by (cases e) (simp_all add: onError_def Let_def)

lemma inverterStep_ok:
  assumes "battery_ok s"
  shows "battery_ok (snd (inverterStep (p, s) ev))"
proof (cases ev)
  case (Tick r)
  with assms show ?thesis by (simp add: inverterStep_def simTick_ok)
qed (use assms in \<open>simp_all add: inverterStep_def battery_ok_def toggleInverter_battery
      enterClick_battery configClick_battery modeClick_battery readingClick_battery
      fireTimer_battery onError_battery promptEffect_def\<close>)

lemma inverter_run_ok:
  "battery_ok s \<Longrightarrow> battery_ok (snd (foldl inverterStep (p, s) evs))"
proof (induction evs arbitrary: p s)
  case Nil
  then show ?case by simp
next
  case (Cons ev evs)
  obtain p' s' where st: "inverterStep (p, s) ev = (p', s')"
    by (cases "inverterStep (p, s) ev")
  with inverterStep_ok [OF Cons.prems, of p ev] have "battery_ok s'" by simp
  then show ?case using Cons.IH st by simp
qed

lemma monitorInit_ok: "chart_ok (monitorInit p now)"
  by (simp add: chart_ok_def monitorInit_def chart_value_ok_def)

lemma monitorStep_ok:
  assumes "chart_ok s" "monitor_event_ok ev"
  shows "chart_ok (monitorStep p s ev)"
proof (cases ev)
  case (DataTick rnd)
  with assms(2) have "chart_value_ok (newValue rnd)"
    by (simp add: monitor_event_ok_def newValue_range)
  moreover have "list_all chart_value_ok (drop 1 (chartData s))"
    using assms(1) by (auto simp: chart_ok_def list_all_iff dest: in_set_dropD)
  ultimately show ?thesis using assms(1) DataTick
    by (simp add: monitorStep_def dataTick_def chart_ok_def)
next
  case (TimeTick now)
  then show ?thesis using assms(1) by (simp add: monitorStep_def timeTick_def chart_ok_def)
qed

lemma monitor_run_ok:
  "chart_ok s \<Longrightarrow> list_all monitor_event_ok evs \<Longrightarrow> chart_ok (foldl (monitorStep p) s evs)"
  by (induction evs arbitrary: s) (simp_all add: monitorStep_ok)

lemma monitor_run_length:
  "length (chartData s) = 7 \<Longrightarrow> length (chartData (foldl (monitorStep p) s evs)) = 7"
proof (induction evs arbitrary: s)
  case Nil
  then show ?case by simp
next
  case (Cons ev evs)
  have "length (chartData (monitorStep p s ev)) = 7"
    using Cons.prems by (cases ev) (simp_all add: monitorStep_def dataTick_def timeTick_def)
  then show ?case using Cons.IH by simp
qed

text \<open>
  C1. The displayed numbers stay within their bounds under every sequence of updates.
  \<^item> Inverter: a battery level in \<open>[0, 100]\<close> stays in \<open>[0, 100]\<close> under every sequence
    of events of the widget (ticks, clicks, timers, audio errors, renders by the
    parent), from any state and so from every mount whose level is in the range;
    the charging branch of the tick never gives more than 100 and the discharging
    branch never less than 0, whatever the level was.
  \<^item> Solar panel: \<open>changeTilt\<close> leaves \<open>tiltAngle\<close> in \<open>[0, 90]\<close> and \<open>changeTimeOfDay\<close>
    leaves \<open>sunIntensity\<close> in \<open>[0, 100]\<close>, for every argument.
  \<^item> Monitor: the value a data tick appends is an integer in \<open>[50, 79]\<close>, it is
    appended after dropping the first element, and after every sequence of ticks
    since the mount the chart has exactly 7 elements, all of them integers in
    \<open>[50, 79]\<close>.
\<close>

theorem displayed_numbers_stay_in_bounds:
  "(battery_ok s \<longrightarrow> battery_ok (snd (foldl inverterStep (p, s) evs)))
   \<and> (battery_ok (inverterInit p) \<longrightarrow> battery_ok (snd (inverterRun p evs)))
   \<and> (batteryConnected c \<and> solarConnected c \<and> loadPercentage c < 80 \<longrightarrow>
        batteryLevel (batteryStep c s) \<le> 100)
   \<and> (batteryConnected d \<and> \<not> (solarConnected d \<and> loadPercentage d < 80) \<and> 0 < loadPercentage d \<longrightarrow>
        0 \<le> batteryLevel (batteryStep d s))
   \<and> 0 \<le> tiltAngle (changeTilt newTilt ss) \<and> tiltAngle (changeTilt newTilt ss) \<le> 90
   \<and> 0 \<le> sunIntensity (changeTimeOfDay newTime rw ss)
   \<and> sunIntensity (changeTimeOfDay newTime rw ss) \<le> 100
   \<and> (is_random rnd \<longrightarrow> chart_value_ok (newValue rnd))
   \<and> chartData (dataTick rnd ms) = drop 1 (chartData ms) @ [newValue rnd]
   \<and> length (chartData (foldl (monitorStep mp) (monitorInit mp now) mevs)) = 7
   \<and> (list_all monitor_event_ok mevs \<longrightarrow>
        chart_ok (foldl (monitorStep mp) (monitorInit mp now) mevs))"
proof (intro conjI impI)
  show "battery_ok (snd (foldl inverterStep (p, s) evs))" if "battery_ok s"
    using that by (rule inverter_run_ok)
  show "battery_ok (snd (inverterRun p evs))" if "battery_ok (inverterInit p)"
    using that by (simp add: inverterRun_def inverter_run_ok)
  show "batteryLevel (batteryStep c s) \<le> 100"
    if "batteryConnected c \<and> solarConnected c \<and> loadPercentage c < 80"
    using that by (rule batteryStep_charge_clamp)
  show "0 \<le> batteryLevel (batteryStep d s)"
    if "batteryConnected d \<and> \<not> (solarConnected d \<and> loadPercentage d < 80) \<and> 0 < loadPercentage d"
    using that by (rule batteryStep_discharge_clamp)
  show "0 \<le> tiltAngle (changeTilt newTilt ss)" "tiltAngle (changeTilt newTilt ss) \<le> 90"
    by (simp_all add: changeTilt_def)
  show "0 \<le> sunIntensity (changeTimeOfDay newTime rw ss)"
    "sunIntensity (changeTimeOfDay newTime rw ss) \<le> 100"
    by (simp_all add: changeTimeOfDay_def Let_def)
  show "chart_value_ok (newValue rnd)" if "is_random rnd"
    using that by (rule newValue_range)
  show "chartData (dataTick rnd ms) = drop 1 (chartData ms) @ [newValue rnd]"
    by (simp add: dataTick_def)
  show "length (chartData (foldl (monitorStep mp) (monitorInit mp now) mevs)) = 7"
    by (rule monitor_run_length) (simp add: monitorInit_def)
  show "chart_ok (foldl (monitorStep mp) (monitorInit mp now) mevs)"
    if "list_all monitor_event_ok mevs"
    using monitorInit_ok that by (rule monitor_run_ok)
qed

text \<open>
  An inverter mounted with the props that the activated diagram passes (battery at
  80, solar connected, load 60) after a tick and a click, both branches of the
  battery step, and the monitor after a data tick with the draw 1/2.
\<close>

theorem displayed_numbers_stay_in_bounds_witness:
  "battery_ok (inverterInit (diagramInverterProps activeDiagram))
   \<and> battery_ok (snd (inverterRun (diagramInverterProps activeDiagram) [Tick halfRandoms, ReadingClick]))
   \<and> batteryConnected (inverterInit (diagramInverterProps activeDiagram))
   \<and> solarConnected (inverterInit (diagramInverterProps activeDiagram))
   \<and> loadPercentage (inverterInit (diagramInverterProps activeDiagram)) < 80
   \<and> batteryLevel (batteryStep (inverterInit (diagramInverterProps activeDiagram))
        (inverterInit (diagramInverterProps activeDiagram))) \<le> 100
   \<and> 0 < loadPercentage ((inverterInit (diagramInverterProps activeDiagram))\<lparr>loadPercentage := 90\<rparr>)
   \<and> 0 \<le> batteryLevel (batteryStep ((inverterInit (diagramInverterProps activeDiagram))\<lparr>loadPercentage := 90\<rparr>)
        (inverterInit (diagramInverterProps activeDiagram)))
   \<and> is_random (1 / 2)
   \<and> chart_value_ok (newValue (1 / 2))
   \<and> list_all monitor_event_ok [DataTick (1 / 2), TimeTick ''10:00:01'']
   \<and> chart_ok (foldl (monitorStep sampleMonitorProps) (monitorInit sampleMonitorProps ''10:00:00'')
        [DataTick (1 / 2), TimeTick ''10:00:01''])"
proof -
  let ?s = "inverterInit (diagramInverterProps activeDiagram)"
  let ?d = "?s\<lparr>loadPercentage := 90\<rparr>"
  let ?evs = "[Tick halfRandoms, ReadingClick]"
  let ?mevs = "[DataTick (1 / 2), TimeTick ''10:00:01'']"
  have h1: "battery_ok ?s"
    by (simp add: battery_ok_def inverterInit_def initialBatteryLevel_def dflt_def
        diagramInverterProps_def)
  have h2: "batteryConnected ?s \<and> solarConnected ?s \<and> loadPercentage ?s < 80"
    by (simp add: inverterInit_def initialBatteryConnected_def initialSolarConnected_def
        initialLoadPercentage_def dflt_def diagramInverterProps_def activeDiagram_def)
  have h3: "batteryConnected ?d \<and> \<not> (solarConnected ?d \<and> loadPercentage ?d < 80)
      \<and> 0 < loadPercentage ?d"
    using h2 by simp
  have h4: "is_random (1 / 2)" by (simp add: is_random_def)
  have h5: "list_all monitor_event_ok ?mevs"
    by (simp add: monitor_event_ok_def is_random_def)
  note w = displayed_numbers_stay_in_bounds [where s = ?s and p = "diagramInverterProps activeDiagram"
      and evs = ?evs and c = ?s and d = ?d and rnd = "1 / 2" and mevs = ?mevs
      and mp = sampleMonitorProps and now = "''10:00:00''"]
  from w h1 have c1: "battery_ok (snd (inverterRun (diagramInverterProps activeDiagram) ?evs))" by blast
  from w h2 have c2: "batteryLevel (batteryStep ?s ?s) \<le> 100" by blast
  from w h3 have c3: "0 \<le> batteryLevel (batteryStep ?d ?s)" by blast
  from w h4 have c4: "chart_value_ok (newValue (1 / 2))" by blast
  from w h5 have c5: "chart_ok (foldl (monitorStep sampleMonitorProps)
      (monitorInit sampleMonitorProps ''10:00:00'') ?mevs)" by blast
  from h1 h2 h3 h4 h5 c1 c2 c3 c4 c5 show ?thesis by blast
qed

subsection \<open>Positions of the particles\<close>

lemma segment1Length_nonneg: "0 \<le> segment1Length p"
  by (simp add: segment1Length_def Let_def)

lemma segment2Length_nonneg: "0 \<le> segment2Length p"
  by (simp add: segment2Length_def Let_def)

lemma scale_le:
  fixes t x :: real
  assumes "0 \<le> x" "t \<le> 1"
  shows "t * x \<le> x"
  using mult_right_mono [OF assms(2) assms(1)] by simp

lemma on_segment_param:
  assumes "0 \<le> t" "t \<le> 1"
  shows "on_segment a b \<lparr> pos_x = pos_x a + t * (pos_x b - pos_x a),
                          pos_y = pos_y a + t * (pos_y b - pos_y a) \<rparr>"
proof -
  have between: "min u v \<le> u + t * (v - u) \<and> u + t * (v - u) \<le> max u v" for u v :: real
  proof (cases "u \<le> v")
    case True
    then have "0 \<le> t * (v - u)" and "t * (v - u) \<le> v - u"
      using assms by (simp_all add: scale_le)
    then show ?thesis using True by simp
  next
    case False
    then have "0 \<le> t * (u - v)" and "t * (u - v) \<le> u - v"
      using assms by (simp_all add: scale_le)
    then show ?thesis using False by (simp add: algebra_simps)
  qed
  show ?thesis
    using between[of "pos_x a" "pos_x b"] between[of "pos_y a" "pos_y b"]
    by (simp add: on_segment_def)
qed

lemma position_none_iff:
  assumes "0 \<le> prog" "prog \<le> 100"
  shows "getParticlePosition p prog = None \<longleftrightarrow>
           segment1Length p = 0 \<and> (prog = 0 \<or> segment2Length p = 0)"
proof -
  let ?a = "segment1Length p" and ?b = "segment2Length p"
  have a: "0 \<le> ?a" and b: "0 \<le> ?b"
    by (rule segment1Length_nonneg, rule segment2Length_nonneg)
  have le: "prog / 100 * ?a \<le> ?a"
    using assms(2) a by (intro scale_le) simp_all
  have nn: "0 \<le> prog / 100 * ?b" using assms(1) b by simp
  show ?thesis
  proof (cases "prog / 100 * (?a + ?b) \<le> ?a")
    case True
    then have "getParticlePosition p prog = None \<longleftrightarrow> ?a = 0"
      by (simp add: getParticlePosition_def Let_def js_div_def)
    moreover have "?a = 0 \<longrightarrow> prog = 0 \<or> ?b = 0"
      using True nn by (auto simp: algebra_simps)
    ultimately show ?thesis by auto
  next
    case False
    then have "getParticlePosition p prog = None \<longleftrightarrow> ?b = 0"
      by (simp add: getParticlePosition_def Let_def js_div_def)
    moreover have "?b \<noteq> 0" using False le by (auto simp: algebra_simps)
    moreover have "\<not> (?a = 0 \<and> (prog = 0 \<or> ?b = 0))" using False by auto
    ultimately show ?thesis by auto
  qed
qed

lemma position_on_path:
  assumes "0 \<le> prog" "prog \<le> 100" "getParticlePosition p prog = Some q"
  shows "on_path p q"
proof -
  let ?a = "segment1Length p" and ?b = "segment2Length p"
  let ?l = "prog / 100 * (?a + ?b)"
  have a: "0 \<le> ?a" and b: "0 \<le> ?b"
    by (rule segment1Length_nonneg, rule segment2Length_nonneg)
  have l0: "0 \<le> ?l" using assms(1) a b by simp
  have l1: "?l \<le> ?a + ?b"
    using assms(2) a b by (intro scale_le) simp_all
  show ?thesis
  proof (cases "?l \<le> ?a")
    case True
    with assms(3) have nz: "?a \<noteq> 0"
      by (auto simp: getParticlePosition_def Let_def js_div_def split: if_splits)
    with a have pos: "0 < ?a" by simp
    have t: "0 \<le> ?l / ?a" "?l / ?a \<le> 1" using l0 True pos by simp_all
    have "q = \<lparr> pos_x = pos_x (conn_from p) + ?l / ?a * (pos_x (getCornerPosition p) - pos_x (conn_from p)),
               pos_y = pos_y (conn_from p) + ?l / ?a * (pos_y (getCornerPosition p) - pos_y (conn_from p)) \<rparr>"
      using assms(3) True nz by (simp add: getParticlePosition_def Let_def js_div_def)
    with on_segment_param[OF t, of "conn_from p" "getCornerPosition p"]
    show ?thesis by (simp add: on_path_def)
  next
    case False
    with assms(3) have nz: "?b \<noteq> 0"
      by (auto simp: getParticlePosition_def Let_def js_div_def split: if_splits)
    with b have pos: "0 < ?b" by simp
    have t: "0 \<le> (?l - ?a) / ?b" "(?l - ?a) / ?b \<le> 1" using l1 False pos by simp_all
    have "q = \<lparr> pos_x = pos_x (getCornerPosition p) + (?l - ?a) / ?b * (pos_x (conn_to p) - pos_x (getCornerPosition p)),
               pos_y = pos_y (getCornerPosition p) + (?l - ?a) / ?b * (pos_y (conn_to p) - pos_y (getCornerPosition p)) \<rparr>"
      using assms(3) False nz by (simp add: getParticlePosition_def Let_def js_div_def)
    with on_segment_param[OF t, of "getCornerPosition p" "conn_to p"]
    show ?thesis by (simp add: on_path_def)
  qed
qed

lemma horizontalLine_lengths: "segment1Length horizontalLine = 10 \<and> segment2Length horizontalLine = 0"
  by (simp add: segment1Length_def segment2Length_def getCornerPosition_def cornerPosition_def
      dflt_def horizontalLine_def Let_def)

lemma verticalLine_lengths: "segment1Length verticalLine = 0 \<and> segment2Length verticalLine = 10"
  by (simp add: segment1Length_def segment2Length_def getCornerPosition_def cornerPosition_def
      dflt_def verticalLine_def Let_def)

lemma bentLine_lengths: "segment1Length bentLine = 30 \<and> segment2Length bentLine = 10"
  by (simp add: segment1Length_def segment2Length_def getCornerPosition_def cornerPosition_def
      dflt_def bentLine_def Let_def)

text \<open>
  C8, as stated, fails: a segment of zero length does not by itself make the result
  not a number. For a straight horizontal line drawn with the default strategy the
  corner is the end point and the second segment has zero length, yet every progress
  gives a point (here 0, 50 and 100); and for a straight vertical line, where the
  start is the corner, progress 50 gives a point as well.
\<close>

theorem zero_length_segment_gives_numbers:
  "segment2Length horizontalLine = 0
   \<and> getParticlePosition horizontalLine 0 = Some \<lparr> pos_x = 0, pos_y = 0 \<rparr>
   \<and> getParticlePosition horizontalLine 50 = Some \<lparr> pos_x = 5, pos_y = 0 \<rparr>
   \<and> getParticlePosition horizontalLine 100 = Some \<lparr> pos_x = 10, pos_y = 0 \<rparr>
   \<and> segment1Length verticalLine = 0
   \<and> getParticlePosition verticalLine 50 = Some \<lparr> pos_x = 0, pos_y = 5 \<rparr>"
  by (simp add: getParticlePosition_def horizontalLine_lengths verticalLine_lengths js_div_def Let_def)
     (simp add: getCornerPosition_def cornerPosition_def dflt_def horizontalLine_def verticalLine_def)

text \<open>
  C8, amended. \<open>getParticlePosition\<close> divides by the two segment lengths without a
  guard. For every progress in \<open>[0, 100]\<close> the result is not a number exactly when the
  first segment has zero length and either the progress is 0 or the second segment has
  zero length too; in every other case, and so whenever both segments have positive
  length, the result is a point of the path from \<open>from\<close> through the corner to \<open>to\<close>.
  With the default strategy and \<open>from.x = to.x\<close> the start is the corner, the first
  segment has zero length and progress 0 gives \<open>0 / 0\<close>.
\<close>

theorem particle_position_defined:
  assumes "0 \<le> prog" "prog \<le> 100"
  shows "(getParticlePosition p prog = None \<longleftrightarrow>
            segment1Length p = 0 \<and> (prog = 0 \<or> segment2Length p = 0))
     \<and> (0 < segment1Length p \<and> 0 < segment2Length p \<longrightarrow>
            on_path_result p (getParticlePosition p prog))
     \<and> (getParticlePosition p prog \<noteq> None \<longrightarrow>
            on_path_result p (getParticlePosition p prog))
     \<and> (cornerPosition p = HorizontalFirst \<and> pos_x (conn_from p) = pos_x (conn_to p) \<longrightarrow>
            conn_from p = getCornerPosition p \<and> segment1Length p = 0
            \<and> getParticlePosition p 0 = None)"
proof -
  note iff = position_none_iff [OF assms, of p]
  have on: "on_path_result p (getParticlePosition p prog)" if "getParticlePosition p prog \<noteq> None"
  proof -
    from that obtain q where q: "getParticlePosition p prog = Some q" by auto
    with position_on_path [OF assms q] show ?thesis by (simp add: on_path_result_def)
  qed
  have both: "on_path_result p (getParticlePosition p prog)"
    if "0 < segment1Length p \<and> 0 < segment2Length p"
    using that iff on by auto
  have ex: "conn_from p = getCornerPosition p \<and> segment1Length p = 0 \<and> getParticlePosition p 0 = None"
    if h: "cornerPosition p = HorizontalFirst \<and> pos_x (conn_from p) = pos_x (conn_to p)"
  proof -
    from h have c: "conn_from p = getCornerPosition p"
      by (simp add: getCornerPosition_def)
    then have z: "segment1Length p = 0"
      by (simp add: segment1Length_def Let_def)
    have "getParticlePosition p 0 = None \<longleftrightarrow>
            segment1Length p = 0 \<and> ((0::real) = 0 \<or> segment2Length p = 0)"
      by (rule position_none_iff) simp_all
    with c z show ?thesis by simp
  qed
  from iff both on ex show ?thesis by blast
qed

text \<open>
  The bent line has segments of 30 and 10; progress 50 is the point (20, 0) of its
  first segment. The vertical line at progress 0 is not a number.
\<close>

theorem particle_position_defined_witness:
  "(0::real) \<le> 50 \<and> (50::real) \<le> 100
   \<and> 0 < segment1Length bentLine \<and> 0 < segment2Length bentLine
   \<and> getParticlePosition bentLine 50 = Some \<lparr> pos_x = 20, pos_y = 0 \<rparr>
   \<and> on_path_result bentLine (getParticlePosition bentLine 50)
   \<and> cornerPosition verticalLine = HorizontalFirst
   \<and> pos_x (conn_from verticalLine) = pos_x (conn_to verticalLine)
   \<and> getParticlePosition verticalLine 0 = None"
proof -
  have h1: "(0::real) \<le> 50" and h2: "(50::real) \<le> 100" by simp_all
  have h3: "0 < segment1Length bentLine \<and> 0 < segment2Length bentLine"
    by (simp add: bentLine_lengths)
  have h4: "cornerPosition verticalLine = HorizontalFirst
      \<and> pos_x (conn_from verticalLine) = pos_x (conn_to verticalLine)"
    by (simp add: cornerPosition_def dflt_def verticalLine_def)
  have v: "getParticlePosition bentLine 50 = Some \<lparr> pos_x = 20, pos_y = 0 \<rparr>"
    by (simp add: getParticlePosition_def bentLine_lengths js_div_def Let_def)
       (simp add: getCornerPosition_def cornerPosition_def dflt_def bentLine_def)
  from particle_position_defined [OF h1 h2, of bentLine] h3
  have c1: "on_path_result bentLine (getParticlePosition bentLine 50)" by blast
  from particle_position_defined [OF h1 h2, of verticalLine] h4
  have c2: "getParticlePosition verticalLine 0 = None" by blast
  from h1 h2 h3 h4 v c1 c2 show ?thesis by blast
qed

subsection \<open>Missing audio assets\<close>

lemma onError_run:
  "audioSrc (foldl (\<lambda>t x. onError x t) s es) e
       = (if e \<in> set es then silentBlob else audioSrc s e)
   \<and> humVolume (foldl (\<lambda>t x. onError x t) s es)
       = (if inverterHum \<in> set es then 0 else humVolume s)
   \<and> fanVolume (foldl (\<lambda>t x. onError x t) s es)
       = (if fanNoise \<in> set es then 0 else fanVolume s)
   \<and> faultCondition (foldl (\<lambda>t x. onError x t) s es) = faultCondition s"
proof (induction es arbitrary: s)
  case Nil
  show ?case by simp
next
  case (Cons x xs)
  have "audioSrc (onError x s) = (audioSrc s)(x := silentBlob)"
    "humVolume (onError x s) = (if x = inverterHum then 0 else humVolume s)"
    "fanVolume (onError x s) = (if x = fanNoise then 0 else fanVolume s)"
    "faultCondition (onError x s) = faultCondition s"
    by (cases x; simp add: onError_def Let_def)+
  with Cons.IH [of "onError x s"] show ?case by auto
qed

text \<open>
  C4. For each of the four audio elements (inverter hum, fan noise, button click,
  alarm) the load-error handler replaces the element's source by the object URL of a
  generated blob of five zero bytes typed \<open>audio/mp3\<close> and leaves the other elements'
  sources alone; the hum handler also sets \<open>humVolume\<close> to 0 and the fan handler
  \<open>fanVolume\<close> to 0. The handler returns normally and shows nothing: apart from the
  source, the two volumes and one console warning, the state of the widget, its fault
  flag included, is what it was, and the widget goes on with that state. After any sequence of load
  errors the elements that failed play the blob, the others their file, and the fault
  flag is untouched.
\<close>

theorem audio_error_substitutes_silence:
  "audioSrc (onError e s) = (audioSrc s)(e := silentBlob)
   \<and> audioSrc (onError e s) e = BlobUrl [0, 0, 0, 0, 0] ''audio/mp3''
   \<and> humVolume (onError inverterHum s) = 0
   \<and> fanVolume (onError fanNoise s) = 0
   \<and> consoleWarnings (onError e s) = consoleWarnings s @ [warningFor e]
   \<and> faultCondition (onError e s) = faultCondition s
   \<and> (onError e s)\<lparr>audioSrc := a, consoleWarnings := w, humVolume := h, fanVolume := f\<rparr>
       = s\<lparr>audioSrc := a, consoleWarnings := w, humVolume := h, fanVolume := f\<rparr>
   \<and> inverterStep (p, s) (AudioError e) = (p, onError e s)
   \<and> audioSrc (foldl (\<lambda>t x. onError x t) s es) e
       = (if e \<in> set es then silentBlob else audioSrc s e)
   \<and> humVolume (foldl (\<lambda>t x. onError x t) s es)
       = (if inverterHum \<in> set es then 0 else humVolume s)
   \<and> fanVolume (foldl (\<lambda>t x. onError x t) s es)
       = (if fanNoise \<in> set es then 0 else fanVolume s)
   \<and> faultCondition (foldl (\<lambda>t x. onError x t) s es) = faultCondition s"
proof -
  have one: "audioSrc (onError e s) = (audioSrc s)(e := silentBlob)"
    "consoleWarnings (onError e s) = consoleWarnings s @ [warningFor e]"
    "faultCondition (onError e s) = faultCondition s"
    "(onError e s)\<lparr>audioSrc := a, consoleWarnings := w, humVolume := h, fanVolume := f\<rparr>
       = s\<lparr>audioSrc := a, consoleWarnings := w, humVolume := h, fanVolume := f\<rparr>"
    by (cases e; simp add: onError_def Let_def)+
  have blob: "audioSrc (onError e s) e = BlobUrl [0, 0, 0, 0, 0] ''audio/mp3''"
    by (simp add: one(1) silentBlob_def)
  have vol: "humVolume (onError inverterHum s) = 0" "fanVolume (onError fanNoise s) = 0"
    by (simp_all add: onError_def Let_def)
  have step: "inverterStep (p, s) (AudioError e) = (p, onError e s)"
    by (simp add: inverterStep_def)
  from one blob vol step onError_run [of s es e] show ?thesis by blast
qed

subsection \<open>Toggles\<close>

lemma panelClick_iter:
  "panelOn (fst ((panelClick cb ^^ n) (s, par))) = (if even n then panelOn s else \<not> panelOn s)"
  by (induction n) (simp_all add: panelClick_def togglePanel_def)

lemma activationClick_iter:
  "isActive ((activationClick ^^ n) d) = (if even n then isActive d else \<not> isActive d)"
  by (induction n) (simp_all add: activationClick_def toggleActivation_def Let_def)

text \<open>
  C2, as stated, fails for \<open>toggleInverter\<close>: the inverter's on/off value is a prop,
  and a click changes it only if the parent does. The diagram passes the empty
  function as \<open>onInverterChange\<close>, so after a click on the power control of its
  inverter the inverter is as off as before.
\<close>

theorem inverter_click_in_diagram_keeps_state:
  "\<not> inverterOn (diagramInverterProps diagramInit)
   \<and> \<not> inverterOn (diagramInverterProps
          (fst (diagramInverterClick (diagramInit, inverterInit (diagramInverterProps diagramInit)))))"
  by (simp add: diagramInverterClick_def toggleInverter_def diagramOnInverterChange_def
      diagramInverterProps_def diagramInit_def Let_def split: prod.splits)

text \<open>
  C2, amended. A click on \<open>togglePanel\<close> (solar panel) or \<open>toggleActivation\<close> (diagram)
  negates the widget's on/off state, so after any number of clicks the state is the
  initial state negated once per click; \<open>togglePanel\<close> calls \<open>onPanelChange\<close>, when
  given, once with exactly the new state, and the diagram has no callback.
  \<open>toggleInverter\<close> holds no on/off state: it calls \<open>onInverterChange\<close> once with the
  negation of the prop \<open>inverterOn\<close>, and what the on/off value is afterwards is up
  to the parent: negated for a parent that stores the value it is given, unchanged in
  the diagram.
\<close>

theorem toggles_follow_click:
  "panelOn (fst (panelClick cb (s, par))) = (\<not> panelOn s)
   \<and> snd (panelClick cb (s, par)) = (case cb of None \<Rightarrow> par | Some f \<Rightarrow> f (\<not> panelOn s) par)
   \<and> panelOn (fst ((panelClick cb ^^ n) (s, par))) = (if even n then panelOn s else \<not> panelOn s)
   \<and> isActive (activationClick d) = (\<not> isActive d)
   \<and> isActive ((activationClick ^^ n) d) = (if even n then isActive d else \<not> isActive d)
   \<and> snd (snd (toggleInverter p g st u)) = g (\<not> inverterOn p) u
   \<and> snd (snd (toggleInverter p (\<lambda>v stored. v) st (inverterOn p))) = (\<not> inverterOn p)
   \<and> fst (diagramInverterClick (d, st)) = d"
proof (intro conjI)
  show "panelOn (fst (panelClick cb (s, par))) = (\<not> panelOn s)"
    by (simp add: panelClick_def togglePanel_def)
  show "snd (panelClick cb (s, par)) = (case cb of None \<Rightarrow> par | Some f \<Rightarrow> f (\<not> panelOn s) par)"
    by (simp add: panelClick_def togglePanel_def)
  show "panelOn (fst ((panelClick cb ^^ n) (s, par))) = (if even n then panelOn s else \<not> panelOn s)"
    by (rule panelClick_iter)
  show "isActive (activationClick d) = (\<not> isActive d)"
    by (simp add: activationClick_def toggleActivation_def Let_def)
  show "isActive ((activationClick ^^ n) d) = (if even n then isActive d else \<not> isActive d)"
    by (rule activationClick_iter)
  show g: "snd (snd (toggleInverter p g st u)) = g (\<not> inverterOn p) u" for g :: "bool \<Rightarrow> 'c \<Rightarrow> 'c" and u
    by (simp add: toggleInverter_def Let_def split: prod.splits)
  show "snd (snd (toggleInverter p (\<lambda>v stored. v) st (inverterOn p))) = (\<not> inverterOn p)"
    by (simp add: toggleInverter_def Let_def split: prod.splits)
  show "fst (diagramInverterClick (d, st)) = d"
    by (simp add: diagramInverterClick_def toggleInverter_def diagramOnInverterChange_def Let_def
        split: prod.splits)
qed

subsection \<open>Rounding to a double\<close>

text \<open>
  The binade of a number is fixed by the two powers of 2 around it, so the rounding of
  a number with known bounds is the rounding of its scaled value to an integer.
\<close>

lemma binade_iff:
  assumes "x \<noteq> 0"
  shows "binade x = e \<longleftrightarrow> 2 powi e \<le> \<bar>x\<bar> \<and> \<bar>x\<bar> < 2 powi (e + 1)"
proof -
  have "0 < \<bar>x\<bar>" using assms by simp
  then have "\<lfloor>log 2 \<bar>x\<bar>\<rfloor> = e \<longleftrightarrow>
      2 powr real_of_int e \<le> \<bar>x\<bar> \<and> \<bar>x\<bar> < 2 powr real_of_int (e + 1)"
    by (intro floor_log_eq_powr_iff) simp_all
  moreover have "(2::real) powr real_of_int e = 2 powi e"
    and "(2::real) powr real_of_int (e + 1) = 2 powi (e + 1)"
    by (rule powr_real_of_int'; simp)+
  ultimately show ?thesis unfolding binade_def by presburger
qed

lemma pow2_nonzero:
  assumes "2 powi e \<le> \<bar>x::real\<bar>"
  shows "x \<noteq> 0"
proof
  assume "x = 0"
  with assms have "2 powi e \<le> (0::real)" by simp
  moreover have "(0::real) < 2 powi e" by simp
  ultimately show False by linarith
qed

lemma pow2_less_imp:
  assumes "(2::real) powi m < 2 powi n"
  shows "m < n"
proof (rule ccontr)
  assume "\<not> m < n"
  then have "n \<le> m" by simp
  then have "(2::real) powi n \<le> 2 powi m" by (intro power_int_increasing) simp_all
  with assms show False by linarith
qed

lemma binade_eq:
  assumes "2 powi e \<le> \<bar>x\<bar>" "\<bar>x\<bar> < 2 powi (e + 1)"
  shows "binade x = e"
  using assms pow2_nonzero [OF assms(1)] by (simp add: binade_iff)

lemma binade_bounds:
  assumes "x \<noteq> 0"
  shows "2 powi (binade x) \<le> \<bar>x\<bar>" "\<bar>x\<bar> < 2 powi (binade x + 1)"
  using binade_iff [OF assms, of "binade x"] by simp_all

lemma fl64_eval:
  assumes "2 powi e \<le> \<bar>x\<bar>" "\<bar>x\<bar> < 2 powi (e + 1)"
  shows "fl64 x = of_int (rne (x / 2 powi (e - 52))) * 2 powi (e - 52)"
  using pow2_nonzero [OF assms(1)] by (simp add: fl64_def ulp_def binade_eq [OF assms])

lemma rne_floor: "\<lfloor>y\<rfloor> \<le> rne y" "rne y \<le> \<lfloor>y\<rfloor> + 1"
  by (simp_all add: rne_def Let_def)

lemma rne_ge:
  assumes "of_int k \<le> y"
  shows "k \<le> rne y"
proof -
  from assms have "k \<le> \<lfloor>y\<rfloor>" by (simp add: le_floor_iff)
  with rne_floor(1) [of y] show ?thesis by linarith
qed

lemma rne_le:
  assumes "y \<le> of_int k"
  shows "rne y \<le> k"
proof (cases "y = of_int k")
  case True
  then show ?thesis by (simp add: rne_def Let_def)
next
  case False
  with assms have "y < of_int k" by simp
  then have "\<lfloor>y\<rfloor> < k" by (simp add: floor_less_iff)
  with rne_floor(2) [of y] show ?thesis by linarith
qed

lemma fl64_pos_bounds:
  assumes "0 < x"
  shows "2 powi (binade x) \<le> fl64 x" "fl64 x \<le> 2 powi (binade x + 1)"
proof -
  let ?e = "binade x"
  have nz: "x \<noteq> 0" using assms by simp
  have u: "(0::real) < 2 powi (?e - 52)" by simp
  have lo: "2 powi ?e \<le> x" and hi: "x < 2 powi (?e + 1)"
    using binade_bounds [OF nz] assms by simp_all
  have s1: "(2::real) powi ?e = 2 ^ 52 * 2 powi (?e - 52)"
    by (simp add: power_int_diff)
  have s2: "(2::real) powi (?e + 1) = 2 ^ 53 * 2 powi (?e - 52)"
    by (simp add: power_int_diff power_int_add)
  have "of_int (2 ^ 52) \<le> x / 2 powi (?e - 52)"
    using lo u s1 by (simp add: pos_le_divide_eq)
  then have a: "2 ^ 52 \<le> rne (x / 2 powi (?e - 52))" by (rule rne_ge)
  have "x / 2 powi (?e - 52) \<le> of_int (2 ^ 53)"
    using hi u s2 by (simp add: pos_divide_le_eq)
  then have b: "rne (x / 2 powi (?e - 52)) \<le> 2 ^ 53" by (rule rne_le)
  have f: "fl64 x = of_int (rne (x / 2 powi (?e - 52))) * 2 powi (?e - 52)"
    using nz by (simp add: fl64_def ulp_def)
  from a have "(2::real) ^ 52 \<le> of_int (rne (x / 2 powi (?e - 52)))"
    by (metis of_int_le_iff of_int_numeral of_int_power)
  then show "2 powi ?e \<le> fl64 x"
    unfolding f s1 using u by (simp add: mult_right_mono)
  from b have "of_int (rne (x / 2 powi (?e - 52))) \<le> (2::real) ^ 53"
    by (metis of_int_le_iff of_int_numeral of_int_power)
  then show "fl64 x \<le> 2 powi (?e + 1)"
    unfolding f s2 using u by (simp add: mult_right_mono)
qed

lemma fl64_nonneg: "0 \<le> x \<Longrightarrow> 0 \<le> fl64 x"
proof (cases "x = 0")
  case True
  then show ?thesis by (simp add: fl64_def)
next
  case False
  assume "0 \<le> x"
  with False have "0 < x" by simp
  from fl64_pos_bounds(1) [OF this] have "2 powi (binade x) \<le> fl64 x" .
  moreover have "(0::real) \<le> 2 powi (binade x)" by simp
  ultimately show ?thesis by linarith
qed

lemma fl64_pow2: "fl64 (2 powi k) = 2 powi k"
proof -
  have "fl64 (2 powi k) = of_int (rne (2 powi k / 2 powi (k - 52))) * 2 powi (k - 52)"
    by (rule fl64_eval) (simp_all add: power_int_add)
  moreover have "(2::real) powi k / 2 powi (k - 52) = of_int (2 ^ 52)"
    by (simp add: power_int_diff)
  moreover have "rne (of_int (2 ^ 52)) = 2 ^ 52"
    unfolding rne_def Let_def by simp
  ultimately show ?thesis by (simp add: power_int_diff)
qed

lemma fl64_le_pow2:
  assumes "0 \<le> x" "x \<le> 2 powi k"
  shows "fl64 x \<le> 2 powi k"
proof (cases "x = 0 \<or> x = 2 powi k")
  case True
  then show ?thesis by (auto simp: fl64_pow2) (simp add: fl64_def)
next
  case False
  with assms have pos: "0 < x" and lt: "x < 2 powi k" by simp_all
  have "2 powi (binade x) \<le> x" using binade_bounds(1) [of x] pos by simp
  with lt have "(2::real) powi (binade x) < 2 powi k" by linarith
  then have "binade x < k" by (rule pow2_less_imp)
  then have "binade x + 1 \<le> k" by simp
  then have "(2::real) powi (binade x + 1) \<le> 2 powi k"
    by (intro power_int_increasing) simp_all
  with fl64_pos_bounds(2) [OF pos] show ?thesis by linarith
qed

lemma fl64_ge_pow2:
  assumes "2 powi k \<le> x"
  shows "2 powi k \<le> fl64 x"
proof -
  have "(0::real) < 2 powi k" by simp
  with assms have pos: "0 < x" by linarith
  have "x < 2 powi (binade x + 1)" using binade_bounds(2) [of x] pos by simp
  with assms have "(2::real) powi k < 2 powi (binade x + 1)" by linarith
  then have "k < binade x + 1" by (rule pow2_less_imp)
  then have "k \<le> binade x" by simp
  then have "(2::real) powi k \<le> 2 powi (binade x)"
    by (intro power_int_increasing) simp_all
  with fl64_pos_bounds(1) [OF pos] show ?thesis by linarith
qed

lemma rne_of_int: "rne (of_int m) = m"
  by (simp add: rne_def Let_def)

lemma fl64_round:
  assumes "2 powi e \<le> \<bar>x\<bar>" "\<bar>x\<bar> < 2 powi (e + 1)" "rne (x / 2 powi (e - 52)) = m"
  shows "fl64 x = of_int m * 2 powi (e - 52)"
  using fl64_eval [OF assms(1,2)] assms(3) by simp

lemma fl64_exact:
  assumes "2 powi e \<le> \<bar>x\<bar>" "\<bar>x\<bar> < 2 powi (e + 1)" "x / 2 powi (e - 52) = of_int m"
  shows "fl64 x = x"
proof -
  have "fl64 x = of_int (rne (of_int m)) * 2 powi (e - 52)"
    using fl64_eval [OF assms(1,2)] assms(3) by simp
  also have "\<dots> = x / 2 powi (e - 52) * 2 powi (e - 52)"
    by (simp add: rne_of_int assms(3))
  finally show ?thesis by simp
qed

lemma fl64_zero: "fl64 0 = 0"
  by (simp add: fl64_def)

lemma fl64_one: "fl64 1 = 1"
  using fl64_pow2 [of 0] by simp










subsection \<open>The particles of a connection\<close>

text \<open>
  The effect creates five particles within the ranges, a tick keeps them there, and
  every step of a connection keeps the list fitting the last run of the effect.
\<close>

lemma js_rem_range:
  assumes "0 \<le> a"
  shows "0 \<le> js_rem a 100 \<and> js_rem a 100 < 100"
proof -
  have q: "0 \<le> a / 100" using assms by simp
  have "of_int \<lfloor>a / 100\<rfloor> \<le> a / 100" and "a / 100 < of_int \<lfloor>a / 100\<rfloor> + 1"
    by linarith+
  then have "100 * of_int \<lfloor>a / 100\<rfloor> \<le> a" and "a < 100 * of_int \<lfloor>a / 100\<rfloor> + 100"
    by linarith+
  then show ?thesis using q by (simp add: js_rem_def)
qed

lemma js_rem_small:
  assumes "0 \<le> a" "a < 200"
  shows "js_rem a 100 = (if a < 100 then a else a - 100)"
proof (cases "a < 100")
  case True
  then have "\<lfloor>a / 100\<rfloor> = 0" using assms(1) by (simp add: floor_eq_iff)
  then show ?thesis using True assms(1) by (simp add: js_rem_def)
next
  case False
  then have "\<lfloor>a / 100\<rfloor> = 1" using assms(2) by (simp add: floor_eq_iff)
  then show ?thesis using False assms(1) by (simp add: js_rem_def)
qed

lemma upt5: "[0..<5] = [0, 1, 2, 3, 4]"
  by (simp add: upt_rec)

lemma speed_range:
  assumes "is_random r"
  shows "1 / 2 \<le> dadd (1 / 2) (dmul r (1 / 2)) \<and> dadd (1 / 2) (dmul r (1 / 2)) \<le> 1"
proof -
  have h: "(2::real) powi (- 1) = 1 / 2" and o: "(2::real) powi 0 = 1"
    by (simp_all add: power_int_minus field_simps)
  from assms have a: "0 \<le> r * (1 / 2)" and "r * (1 / 2) \<le> 1 / 2"
    by (simp_all add: is_random_def)
  then have b: "r * (1 / 2) \<le> 2 powi (- 1)" unfolding h by simp
  have c: "0 \<le> fl64 (r * (1 / 2))" by (rule fl64_nonneg [OF a])
  have "fl64 (r * (1 / 2)) \<le> 2 powi (- 1)" by (rule fl64_le_pow2 [OF a b])
  then have d: "fl64 (r * (1 / 2)) \<le> 1 / 2" unfolding h .
  from c have lo: "2 powi (- 1) \<le> 1 / 2 + fl64 (r * (1 / 2))" unfolding h by linarith
  from d have hi: "1 / 2 + fl64 (r * (1 / 2)) \<le> 2 powi 0" unfolding o by linarith
  from c have nn: "0 \<le> 1 / 2 + fl64 (r * (1 / 2))" by linarith
  have "2 powi (- 1) \<le> fl64 (1 / 2 + fl64 (r * (1 / 2)))" by (rule fl64_ge_pow2 [OF lo])
  moreover have "fl64 (1 / 2 + fl64 (r * (1 / 2))) \<le> 2 powi 0" by (rule fl64_le_pow2 [OF nn hi])
  ultimately show ?thesis unfolding h o dadd_def dmul_def by simp
qed

lemma progress_sum_range:
  assumes "particle_ok q"
  shows "0 \<le> dadd (progress q) (speed q) \<and> dadd (progress q) (speed q) < 200"
proof -
  have p: "(2::real) powi 7 = 128" by simp
  from assms have nn: "0 \<le> progress q + speed q" and le: "progress q + speed q \<le> 2 powi 7"
    unfolding p by (simp_all add: particle_ok_def)
  from fl64_nonneg [OF nn] fl64_le_pow2 [OF nn le]
  show ?thesis unfolding p by (simp add: dadd_def)
qed

lemma particleEffect_ok:
  assumes "draws_ok rnd"
  shows "particles_inv act (particleEffect act rnd)"
proof (cases act)
  case False
  then show ?thesis by (simp add: particles_inv_def particleEffect_def)
next
  case True
  have g: "\<And>i::nat. 0 \<le> js_rem (real i * 20) 100 \<and> js_rem (real i * 20) 100 < 100"
    by (rule js_rem_range) simp
  from assms have r: "is_random (rnd 0)" "is_random (rnd 1)" "is_random (rnd 2)"
      "is_random (rnd 3)" "is_random (rnd 4)"
    by (simp_all add: draws_ok_def)
  show ?thesis
    using True speed_range [OF r(1)] speed_range [OF r(2)] speed_range [OF r(3)]
      speed_range [OF r(4)] speed_range [OF r(5)] g [of 0] g [of 1] g [of 2] g [of 3] g [of 4]
    by (simp add: particles_inv_def particleEffect_def upt5 particle_ok_def)
qed

lemma animationTick_ok:
  assumes "list_all particle_ok ps"
  shows "list_all particle_ok (animationTick ps)"
proof -
  have "particle_ok (q\<lparr>progress := js_rem (dadd (progress q) (speed q)) 100\<rparr>)"
    if "particle_ok q" for q
    using that progress_sum_range [OF that] js_rem_range [of "dadd (progress q) (speed q)"]
    by (simp add: particle_ok_def)
  with assms show ?thesis by (simp add: animationTick_def list_all_iff)
qed

lemma animationTick_inv:
  assumes "particles_inv act ps"
  shows "particles_inv act (animationTick ps)"
proof (cases act)
  case True
  with assms have "length ps = 5" and "list_all particle_ok ps"
    by (simp_all add: particles_inv_def)
  then have "length (animationTick ps) = 5" and "list_all particle_ok (animationTick ps)"
    by (simp_all add: animationTick_ok) (simp add: animationTick_def)
  with True show ?thesis by (simp add: particles_inv_def)
next
  case False
  with assms show ?thesis by (simp add: particles_inv_def animationTick_def)
qed

lemma animationTick_progress:
  assumes "particle_ok q"
  shows "js_rem (dadd (progress q) (speed q)) 100 =
     (if dadd (progress q) (speed q) < 100 then dadd (progress q) (speed q)
      else dadd (progress q) (speed q) - 100)"
  using progress_sum_range [OF assms] by (intro js_rem_small) simp_all

lemma runEffect_fits:
  assumes "fits_effect st" "draws_ok rnd"
  shows "fits_effect (runEffect rnd st)"
proof (cases "effectFor st = Some (shownActive st)")
  case True
  with assms(1) show ?thesis by (simp add: runEffect_def)
next
  case False
  with particleEffect_ok [OF assms(2), of "shownActive st"] show ?thesis
    by (simp add: runEffect_def fits_effect_def)
qed

lemma connectionStep_fits:
  assumes "fits_effect st" "connection_event_ok ev"
  shows "fits_effect (connectionStep st ev)"
proof (cases ev)
  case (Render act rnd)
  with assms have "fits_effect (runEffect rnd st)"
    by (simp add: connection_event_ok_def runEffect_fits)
  with Render show ?thesis by (simp add: connectionStep_def fits_effect_def)
next
  case (EffectRuns rnd)
  with assms show ?thesis by (simp add: connectionStep_def connection_event_ok_def runEffect_fits)
next
  case AnimationTick
  show ?thesis
  proof (cases "effectFor st = Some True")
    case True
    with assms(1) have "particles_inv True (animationTick (particles st))"
      by (simp add: fits_effect_def animationTick_inv)
    with True AnimationTick show ?thesis by (simp add: connectionStep_def fits_effect_def)
  next
    case False
    with assms(1) AnimationTick show ?thesis by (simp add: connectionStep_def)
  qed
qed

lemma connectionRun_fits:
  "list_all connection_event_ok evs \<Longrightarrow> fits_effect (connectionRun act evs)"
proof -
  have m: "fits_effect (connectionMount act)"
    by (simp add: fits_effect_def connectionMount_def particles_inv_def)
  have "fits_effect st \<Longrightarrow> list_all connection_event_ok evs \<Longrightarrow>
      fits_effect (foldl connectionStep st evs)" for st
    by (induction evs arbitrary: st) (simp_all add: connectionStep_fits)
  from this [OF m] show "list_all connection_event_ok evs \<Longrightarrow> fits_effect (connectionRun act evs)"
    by (simp add: connectionRun_def)
qed

text \<open>The roundings of the sample runs.\<close>

lemma fl64_quarter: "fl64 (1 / 4) = 1 / 4"
  using fl64_pow2 [of "- 2"] by (simp add: power_int_minus field_simps)

lemma fl64_three_quarters: "fl64 (3 / 4) = 3 / 4"
  by (rule fl64_exact [where e = "- 1" and m = 6755399441055744])
     (simp_all add: power_int_minus)

lemma half_draw_halved: "fl64 ((1 - 1 / 2 ^ 53) * (1 / 2)) = 1 / 2 - 1 / 2 ^ 54"
proof -
  have "fl64 ((1 - 1 / 2 ^ 53) * (1 / 2)) = (1 - 1 / 2 ^ 53) * (1 / 2)"
    by (rule fl64_exact [where e = "- 2" and m = 9007199254740991]) simp_all
  then show ?thesis by simp
qed

lemma last_speed_rounds_up: "fl64 (1 / 2 + (1 / 2 - 1 / 2 ^ 54)) = 1"
proof -
  have "rne ((1 / 2 + (1 / 2 - 1 / 2 ^ 54)) / 2 powi (- 1 - 52)) = 9007199254740992"
    by (simp add: rne_def Let_def)
  from fl64_round [where e = "- 1", OF _ _ this] show ?thesis by simp
qed

lemma mount_half: "particleEffect True halfDraws =
   [\<lparr>pid = 0, progress = 0, speed = 3 / 4\<rparr>, \<lparr>pid = 1, progress = 20, speed = 3 / 4\<rparr>,
    \<lparr>pid = 2, progress = 40, speed = 3 / 4\<rparr>, \<lparr>pid = 3, progress = 60, speed = 3 / 4\<rparr>,
    \<lparr>pid = 4, progress = 80, speed = 3 / 4\<rparr>]"
proof -
  have "dadd (1 / 2) (dmul (1 / 2) (1 / 2)) = 3 / 4"
    by (simp add: dadd_def dmul_def fl64_quarter fl64_three_quarters)
  then show ?thesis
    by (simp add: particleEffect_def upt5 halfDraws_def js_rem_small)
qed

lemma wrap_sum: "dadd (199 / 2) (3 / 4) = 401 / 4"
proof -
  have "fl64 (401 / 4) = 401 / 4"
    by (rule fl64_exact [where e = 6 and m = 7054466603810816]) simp_all
  then show ?thesis by (simp add: dadd_def)
qed

text \<open>
  C9, as stated, fails in two places. The list follows \<open>active\<close> only when the effect
  has run: a connection that mounts with \<open>active = true\<close> is rendered with the list
  \<open>useState([])\<close> gave it, active and without a particle, and a connection that is
  deactivated keeps its five particles until the effect has run. And the speed is not
  always below 1: for the largest draw, \<open>1 - 1 / 2 ^ 53\<close>, the product \<open>r * 0.5\<close> is
  exact and the sum \<open>0.5 + r * 0.5\<close> lies halfway between two doubles and rounds
  to 1.
\<close>

theorem particles_absent_after_mount:
  "shownActive (connectionMount True)
   \<and> particles (connectionMount True) = []
   \<and> \<not> particles_inv (shownActive (connectionMount True)) (particles (connectionMount True))
   \<and> \<not> shownActive (connectionRun True [EffectRuns halfDraws, Render False halfDraws])
   \<and> length (particles (connectionRun True [EffectRuns halfDraws, Render False halfDraws])) = 5
   \<and> is_random (lastDraw 0)
   \<and> speed (hd (particleEffect True lastDraw)) = 1"
proof -
  have t: "\<not> shownActive (connectionRun True [EffectRuns halfDraws, Render False halfDraws])
    \<and> length (particles (connectionRun True [EffectRuns halfDraws, Render False halfDraws])) = 5"
    by (simp add: connectionRun_def connectionStep_def runEffect_def connectionMount_def
        mount_half)
  have "speed (hd (particleEffect True lastDraw)) = dadd (1 / 2) (dmul (lastDraw 0) (1 / 2))"
    by (simp add: particleEffect_def upt5)
  also have "\<dots> = 1"
    by (simp only: dadd_def dmul_def lastDraw_def half_draw_halved last_speed_rounds_up)
  finally have s: "speed (hd (particleEffect True lastDraw)) = 1" .
  have r: "is_random (lastDraw 0)" by (simp add: is_random_def lastDraw_def)
  have m: "shownActive (connectionMount True) \<and> particles (connectionMount True) = []
    \<and> \<not> particles_inv (shownActive (connectionMount True)) (particles (connectionMount True))"
    by (simp add: connectionMount_def particles_inv_def)
  from m t r s show ?thesis by blast
qed

text \<open>
  C9, amended. At every moment of the life of a connection the particle list fits the
  value of \<open>active\<close> for which the effect last ran. So once the effect of the render
  on screen has run (\<open>effect_done\<close>), an active connection has exactly 5 particles,
  each with a speed in the closed interval \<open>[0.5, 1]\<close> and a progress in \<open>[0, 100)\<close>,
  and an inactive connection has none; and while the effect of an active render is
  still pending the list is empty. An animation tick keeps the effect done, keeps the
  number, the ids and the speeds of the particles and their ranges, and maps the
  progress to \<open>(progress + speed) % 100\<close>, the sum being rounded to a double: the sum
  itself below 100, and the sum less 100 from there on.
\<close>

theorem particles_invariant:
  "(list_all connection_event_ok evs \<longrightarrow>
      fits_effect (connectionRun act evs)
      \<and> (effect_done (connectionRun act evs) \<longrightarrow>
           particles_inv (shownActive (connectionRun act evs)) (particles (connectionRun act evs)))
      \<and> (shownActive (connectionRun act evs) \<and> \<not> effect_done (connectionRun act evs) \<longrightarrow>
           particles (connectionRun act evs) = []))
   \<and> (effect_done st \<longrightarrow> effect_done (connectionStep st AnimationTick))
   \<and> (list_all particle_ok ps \<longrightarrow> list_all particle_ok (animationTick ps))
   \<and> length (animationTick ps) = length ps
   \<and> map speed (animationTick ps) = map speed ps
   \<and> map pid (animationTick ps) = map pid ps
   \<and> map progress (animationTick ps) = map (\<lambda>q. js_rem (dadd (progress q) (speed q)) 100) ps
   \<and> (particle_ok q \<longrightarrow> js_rem (dadd (progress q) (speed q)) 100 =
        (if dadd (progress q) (speed q) < 100 then dadd (progress q) (speed q)
         else dadd (progress q) (speed q) - 100))"
proof (intro conjI impI)
  assume ok: "list_all connection_event_ok evs"
  let ?st = "connectionRun act evs"
  show f: "fits_effect ?st" using ok by (rule connectionRun_fits)
  show "particles_inv (shownActive ?st) (particles ?st)" if "effect_done ?st"
  proof -
    from that have "(effectFor ?st = Some True) = shownActive ?st"
      by (auto simp: effect_done_def)
    with f show ?thesis by (simp add: fits_effect_def)
  qed
  show "particles ?st = []" if "shownActive ?st \<and> \<not> effect_done ?st"
  proof -
    from that have "effectFor ?st \<noteq> Some True" by (auto simp: effect_done_def)
    with f show ?thesis by (simp add: fits_effect_def particles_inv_def)
  qed
next
  show "effect_done (connectionStep st AnimationTick)" if "effect_done st"
    using that by (simp add: connectionStep_def effect_done_def)
  show "list_all particle_ok (animationTick ps)" if "list_all particle_ok ps"
    using that by (rule animationTick_ok)
  show "length (animationTick ps) = length ps"
    "map speed (animationTick ps) = map speed ps"
    "map pid (animationTick ps) = map pid ps"
    "map progress (animationTick ps) = map (\<lambda>q. js_rem (dadd (progress q) (speed q)) 100) ps"
    by (simp_all add: animationTick_def comp_def)
  show "js_rem (dadd (progress q) (speed q)) 100 =
        (if dadd (progress q) (speed q) < 100 then dadd (progress q) (speed q)
         else dadd (progress q) (speed q) - 100)" if "particle_ok q"
    using that by (rule animationTick_progress)
qed

text \<open>
  A connection that lives through \<open>sampleRun\<close> ends active with its effect done; a
  connection just mounted is active with the effect pending; and a particle at 99.5
  with speed 0.75 wraps to 0.25.
\<close>

theorem particles_invariant_witness:
  "list_all connection_event_ok sampleRun
   \<and> effect_done (connectionRun True sampleRun)
   \<and> particles_inv (shownActive (connectionRun True sampleRun))
        (particles (connectionRun True sampleRun))
   \<and> list_all connection_event_ok []
   \<and> shownActive (connectionRun True []) \<and> \<not> effect_done (connectionRun True [])
   \<and> particles (connectionRun True []) = []
   \<and> effect_done (connectionRun True [EffectRuns halfDraws])
   \<and> effect_done (connectionStep (connectionRun True [EffectRuns halfDraws]) AnimationTick)
   \<and> list_all particle_ok (particleEffect True halfDraws)
   \<and> list_all particle_ok (animationTick (particleEffect True halfDraws))
   \<and> particle_ok \<lparr>pid = 0, progress = 199 / 2, speed = 3 / 4\<rparr>
   \<and> js_rem (dadd (progress \<lparr>pid = 0, progress = 199 / 2, speed = 3 / 4\<rparr>)
        (speed \<lparr>pid = 0, progress = 199 / 2, speed = 3 / 4\<rparr>)) 100 = 1 / 4"
proof -
  let ?q = "\<lparr>pid = 0, progress = 199 / 2, speed = 3 / 4\<rparr>"
  have d: "draws_ok halfDraws" by (simp add: draws_ok_def halfDraws_def is_random_def)
  have h1: "list_all connection_event_ok sampleRun"
    by (simp add: sampleRun_def connection_event_ok_def d)
  have h2: "effect_done (connectionRun True sampleRun)"
    by (simp add: sampleRun_def connectionRun_def connectionStep_def runEffect_def
        connectionMount_def effect_done_def)
  have h3: "list_all connection_event_ok []" by simp
  have h4: "shownActive (connectionRun True []) \<and> \<not> effect_done (connectionRun True [])"
    by (simp add: connectionRun_def connectionMount_def effect_done_def)
  have h5: "effect_done (connectionRun True [EffectRuns halfDraws])"
    by (simp add: connectionRun_def connectionStep_def runEffect_def connectionMount_def
        effect_done_def)
  have h6: "list_all particle_ok (particleEffect True halfDraws)"
    by (simp add: mount_half particle_ok_def)
  have h7: "particle_ok ?q" by (simp add: particle_ok_def)
  note w1 = particles_invariant [where act = True and evs = sampleRun
      and st = "connectionRun True [EffectRuns halfDraws]"
      and ps = "particleEffect True halfDraws" and q = ?q]
  note w2 = particles_invariant [where act = True and evs = "[]"]
  from w1 h1 h2 have c1: "particles_inv (shownActive (connectionRun True sampleRun))
        (particles (connectionRun True sampleRun))" by blast
  from w2 h3 h4 have c2: "particles (connectionRun True []) = []" by blast
  from w1 h5 have c3: "effect_done (connectionStep (connectionRun True [EffectRuns halfDraws])
      AnimationTick)" by blast
  from w1 h6 have c4: "list_all particle_ok (animationTick (particleEffect True halfDraws))"
    by blast
  from w1 h7 have "js_rem (dadd (progress ?q) (speed ?q)) 100 =
        (if dadd (progress ?q) (speed ?q) < 100 then dadd (progress ?q) (speed ?q)
         else dadd (progress ?q) (speed ?q) - 100)" by blast
  then have c5: "js_rem (dadd (progress ?q) (speed ?q)) 100 = 1 / 4"
    by (simp only: Particle.simps wrap_sum) simp
  from h1 h2 h3 h4 h5 h6 h7 c1 c2 c3 c4 c5 show ?thesis by blast
qed

subsection \<open>The output power of the solar panel\<close>



















subsection \<open>The bulb\<close>











text \<open>
  That a render does not read the environment is a property a component of this
  repository can lack: the background of the diagram differs between two
  environments.
\<close>

lemma background_reads_random_source:
  "diagramBackground quietEnv \<noteq> diagramBackground busyEnv"
proof -
  have a: "fl64 (3 / 2) = 3 / 2"
    by (rule fl64_exact [where e = 0 and m = 6755399441055744]) simp_all
  have b: "fl64 (5 / 2) = 5 / 2"
    by (rule fl64_exact [where e = 1 and m = 5629499534213120]) simp_all
  have q: "dadd (dmul (randomDraws quietEnv 0) 3) 1 = 1"
    by (simp add: quietEnv_def dadd_def dmul_def fl64_zero fl64_one)
  have r: "dadd (dmul (randomDraws busyEnv 0) 3) 1 = 5 / 2"
    by (simp add: busyEnv_def halfDraws_def dadd_def dmul_def a b)
  have "styles (diagramBackground quietEnv ! 0) ! 0 = (''width'', Fmt '''' 1 ''px'')"
    by (simp add: diagramBackground_def backgroundDot_def q)
  moreover have "styles (diagramBackground busyEnv ! 0) ! 0 = (''width'', Fmt '''' (5 / 2) ''px'')"
    by (simp add: diagramBackground_def backgroundDot_def r)
  ultimately show ?thesis by auto
qed



end
